theory Spec2Isabelle
  imports Complex_Main "HOL-Library.Sublist" "HOL-Library.List_Lexorder" "HOL-Library.Char_ord"
begin

section \<open>Python values shared by the scripts\<close>

text \<open>
  The scalar values that occur as property values in the feature files: \<open>None\<close>,
  integers and strings. On these, Python's \<open>==\<close> and \<open>hash\<close> agree with
  structural equality, so a Python \<open>set\<close> of them is a HOL set.
\<close>

datatype py_value = PNone | PInt int | PStr string

text \<open>\<open>d.get(k)\<close>: the value stored under \<open>k\<close>, and \<open>None\<close> for a missing key.\<close>

definition dict_get :: "(string \<rightharpoonup> py_value) \<Rightarrow> string \<Rightarrow> py_value" where
  "dict_get d k = (case d k of None \<Rightarrow> PNone | Some v \<Rightarrow> v)"

text \<open>
  The exceptions the scripts raise or meet. \<open>KeyboardInterrupt\<close> is not an
  \<open>Exception\<close>: an \<open>except Exception\<close> clause lets it through.
\<close>

datatype py_error =
  ValueError | OverflowError | KeyError | EEException | OtherException | KeyboardInterrupt

section \<open>merge\_tanker\_jsons.py: merging two feature collections\<close>

text \<open>
  A GeoJSON feature: a geometry, which the merge never inspects, and a property
  mapping.
\<close>

record 'g feature =
  geometry :: 'g
  properties :: "string \<rightharpoonup> py_value"

text \<open>\<open>feature['properties'].get('tank_id')\<close>\<close>

definition tank_id_of :: "'g feature \<Rightarrow> py_value" where
  "tank_id_of f = dict_get (properties f) ''tank_id''"

text \<open>
  The loop \<open>for feature in all_features\<close>, with its two accumulators
  \<open>seen_ids\<close> and \<open>unique_features\<close>.
\<close>

fun dedup_loop ::
  "'g feature list \<Rightarrow> py_value set \<Rightarrow> 'g feature list \<Rightarrow> py_value set \<times> 'g feature list" where
  "dedup_loop [] seen_ids uniq = (seen_ids, uniq)"
| "dedup_loop (f # fs) seen_ids uniq =
     (let tank_id = tank_id_of f in
      if tank_id \<notin> seen_ids
      then dedup_loop fs (insert tank_id seen_ids) (uniq @ [f])
      else dedup_loop fs seen_ids uniq)"

definition unique_features :: "'g feature list \<Rightarrow> 'g feature list" where
  "unique_features all_features = snd (dedup_loop all_features {} [])"

text \<open>What the script writes and prints: the merged collection and the five counts.\<close>

record 'g merge_report =
  merged :: "'g feature list"
  file1_tanks :: nat
  file2_tanks :: nat
  total_tanks :: nat
  unique_tanks :: nat
  duplicates_removed :: int

definition merge_tanker_jsons :: "'g feature list \<Rightarrow> 'g feature list \<Rightarrow> 'g merge_report" where
  "merge_tanker_jsons data1 data2 =
     (let all_features = data1 @ data2;
          uniq = unique_features all_features
      in \<lparr> merged = uniq,
           file1_tanks = length data1,
           file2_tanks = length data2,
           total_tanks = length all_features,
           unique_tanks = length uniq,
           duplicates_removed = int (length all_features) - int (length uniq) \<rparr>)"

text \<open>The two files of the end-to-end scenario; the geometry tells the two polygons
  with id 2 apart.\<close>

definition tank :: "int \<Rightarrow> string \<Rightarrow> string feature" where
  "tank i g = \<lparr> geometry = g, properties = [''tank_id'' \<mapsto> PInt i] \<rparr>"

definition scenario_file1 :: "string feature list" where
  "scenario_file1 = [tank 1 ''a1'', tank 2 ''a2'']"

definition scenario_file2 :: "string feature list" where
  "scenario_file2 = [tank 2 ''b2'', tank 3 ''b3'']"

text \<open>A feature whose property mapping has no \<open>tank_id\<close> key.\<close>

definition untagged :: "string \<Rightarrow> string feature" where
  "untagged g = \<lparr> geometry = g, properties = Map.empty \<rparr>"

section \<open>working\_weekly\_data.py: the weekly statistics pipeline\<close>

subsection \<open>Dates\<close>

text \<open>
  A \<open>datetime\<close> value. Every value of the script is built as
  \<open>datetime(year, month, day)\<close> and changed only by \<open>timedelta(days=n)\<close>, so
  its time of day is always midnight and is left out.
\<close>

record datetime =
  year :: int
  month :: int
  day :: int

text \<open>The calendar arithmetic of the \<open>datetime\<close> module.\<close>

definition is_leap :: "int \<Rightarrow> bool" where
  "is_leap y = (y mod 4 = 0 \<and> (y mod 100 \<noteq> 0 \<or> y mod 400 = 0))"

definition days_before_year :: "int \<Rightarrow> int" where
  "days_before_year y = (y - 1) * 365 + (y - 1) div 4 - (y - 1) div 100 + (y - 1) div 400"

definition DAYS_IN_MONTH :: "int list" where
  "DAYS_IN_MONTH = [-1, 31, 28, 31, 30, 31, 30, 31, 31, 30, 31, 30, 31]"

definition DAYS_BEFORE_MONTH :: "int list" where
  "DAYS_BEFORE_MONTH = [-1, 0, 31, 59, 90, 120, 151, 181, 212, 243, 273, 304, 334]"

definition days_before_month :: "int \<Rightarrow> int \<Rightarrow> int" where
  "days_before_month y m =
     DAYS_BEFORE_MONTH ! nat m + (if m > 2 \<and> is_leap y then 1 else 0)"

definition ymd2ord :: "int \<Rightarrow> int \<Rightarrow> int \<Rightarrow> int" where
  "ymd2ord y m d = days_before_year y + days_before_month y m + d"

definition toordinal :: "datetime \<Rightarrow> int" where
  "toordinal t = ymd2ord (year t) (month t) (day t)"

text \<open>\<open>_ord2ymd\<close>, the inverse of \<open>_ymd2ord\<close>, step by step as the module has it.\<close>

definition ord2ymd :: "int \<Rightarrow> datetime" where
  "ord2ymd ordinal =
     (let n = ordinal - 1;
          n400 = n div 146097; n = n mod 146097;
          y = n400 * 400 + 1;
          n100 = n div 36524; n = n mod 36524;
          n4 = n div 1461; n = n mod 1461;
          n1 = n div 365; n = n mod 365;
          y = y + n100 * 100 + n4 * 4 + n1
      in if n1 = 4 \<or> n100 = 4 then \<lparr> year = y - 1, month = 12, day = 31 \<rparr>
         else
           let leapyear = (n1 = 3 \<and> (n4 \<noteq> 24 \<or> n100 = 3));
               m = (n + 50) div 32;
               preceding = DAYS_BEFORE_MONTH ! nat m + (if m > 2 \<and> leapyear then 1 else 0)
           in if preceding > n
              then let m = m - 1;
                       preceding = preceding
                         - (DAYS_IN_MONTH ! nat m + (if m = 2 \<and> leapyear then 1 else 0))
                   in \<lparr> year = y, month = m, day = n - preceding + 1 \<rparr>
              else \<lparr> year = y, month = m, day = n - preceding + 1 \<rparr>)"

definition MAXORDINAL :: int where
  "MAXORDINAL = 3652059"

text \<open>
  \<open>current + timedelta(days=n)\<close>: a \<open>timedelta\<close> of more than 999999999 days
  cannot be built, and a sum outside the years 1 to 9999 is refused.
\<close>

definition add_days :: "datetime \<Rightarrow> int \<Rightarrow> py_error + datetime" where
  "add_days t n =
     (if \<bar>n\<bar> > 999999999 then Inl OverflowError
      else let days = toordinal t + n
           in if 0 < days \<and> days \<le> MAXORDINAL then Inr (ord2ymd days)
              else Inl OverflowError)"

text \<open>\<open>a < b\<close> on \<open>datetime\<close> values compares year, month and day in this order.\<close>

definition dt_less :: "datetime \<Rightarrow> datetime \<Rightarrow> bool" where
  "dt_less a b =
     (year a < year b \<or> (year a = year b \<and>
        (month a < month b \<or> (month a = month b \<and> day a < day b))))"

text \<open>\<open>weekday()\<close>: Monday is 0 and Sunday is 6.\<close>

definition weekday :: "datetime \<Rightarrow> int" where
  "weekday t = (toordinal t + 6) mod 7"

text \<open>
  \<open>strftime('%Y-%m-%d')\<close>, with the year written in four digits, which is what every
  platform prints for the years 1000 to 9999.
\<close>

definition digit :: "int \<Rightarrow> char" where
  "digit n = ''0123456789'' ! nat (n mod 10)"

definition strftime :: "datetime \<Rightarrow> string" where
  "strftime t =
     [digit (year t div 1000), digit (year t div 100), digit (year t div 10), digit (year t)]
     @ ''-'' @ [digit (month t div 10), digit (month t)]
     @ ''-'' @ [digit (day t div 10), digit (day t)]"

subsection \<open>Configuration\<close>

definition START_DATE :: datetime where
  "START_DATE = \<lparr> year = 2024, month = 1, day = 3 \<rparr>"

definition END_DATE :: datetime where
  "END_DATE = \<lparr> year = 2024, month = 3, day = 1 \<rparr>"

definition COMPOSITE_INTERVAL_DAYS :: int where
  "COMPOSITE_INTERVAL_DAYS = 7"

definition EIA_RELEASE_WEEKDAY :: int where
  "EIA_RELEASE_WEEKDAY = 2"

definition USERNAME :: string where
  "USERNAME = ''2samenpoli''"

definition REGION_ASSETS :: "string list" where
  "REGION_ASSETS =
     [''users/'' @ USERNAME @ ''/oil-tankers/fujairah_uae'',
      ''users/'' @ USERNAME @ ''/oil-tankers/rotterdam_netherlands'',
      ''users/'' @ USERNAME @ ''/oil-tankers/jurong_island_singapore'',
      ''users/'' @ USERNAME @ ''/oil-tankers/houston_ship_channel_usa'',
      ''users/'' @ USERNAME @ ''/oil-tankers/saldanha_bay_south_africa'',
      ''users/'' @ USERNAME @ ''/oil-tankers/zhoushan_china'',
      ''users/'' @ USERNAME @ ''/oil-tankers/cushing_ok'']"

subsection \<open>The window starts\<close>

text \<open>
  The loop of \<open>generate_date_list\<close>. With an interval of zero or less it never ends
  when it starts before the end date, so it is a partial function: not returning is the
  value \<open>None\<close>.
\<close>

partial_function (option) date_loop ::
  "datetime \<Rightarrow> datetime \<Rightarrow> int \<Rightarrow> string list \<Rightarrow> (py_error + string list) option" where
  "date_loop current end_date interval_days dates =
     (if dt_less current end_date
      then (case add_days current interval_days of
              Inl e \<Rightarrow> Some (Inl e)
            | Inr next_date \<Rightarrow>
                date_loop next_date end_date interval_days (dates @ [strftime current]))
      else Some (Inr dates))"

declare date_loop.simps [code]

definition generate_date_list ::
  "datetime \<Rightarrow> datetime \<Rightarrow> int \<Rightarrow> (py_error + string list) option" where
  "generate_date_list start end_date interval_days = date_loop start end_date interval_days []"

subsection \<open>The remote backend\<close>

text \<open>
  What the Earth Engine backend answers, as far as the script looks at it. Forcing the
  size of an asset gives its features, or raises \<open>ee.EEException\<close>, or raises another
  exception; initialising, forcing the size of the merged collection and starting the
  export each succeed or raise. The features themselves are opaque to the script.
\<close>

datatype 'f asset_outcome = Resolved "'f list" | RaisesEEException | RaisesOther

record 'f backend =
  initialize_ok :: bool
  asset_lookup :: "string \<Rightarrow> 'f asset_outcome"
  merged_size_ok :: bool
  export_ok :: bool

text \<open>The calls that reach the network, in the order they are made.\<close>

datatype ee_call = Initialize | AssetSize string | MergedSize | ExportStart

subsection \<open>Loading the published assets\<close>

text \<open>
  The loop \<open>for asset in REGION_ASSETS\<close> of \<open>load_storage_polygons\<close>, with its
  accumulators \<open>valid_collections\<close> and \<open>missing_assets\<close> and the calls made.
\<close>

fun load_loop ::
  "'f backend \<Rightarrow> string list \<Rightarrow> 'f list list \<Rightarrow> string list \<Rightarrow> ee_call list
     \<Rightarrow> 'f list list \<times> string list \<times> ee_call list" where
  "load_loop b [] valid missing calls = (valid, missing, calls)"
| "load_loop b (asset # rest) valid missing calls =
     (case asset_lookup b asset of
        Resolved collection \<Rightarrow>
          (if int (length collection) > 0
           then load_loop b rest (valid @ [collection]) missing (calls @ [AssetSize asset])
           else load_loop b rest valid missing (calls @ [AssetSize asset]))
      | RaisesEEException \<Rightarrow>
          load_loop b rest valid (missing @ [asset]) (calls @ [AssetSize asset])
      | RaisesOther \<Rightarrow>
          load_loop b rest valid (missing @ [asset]) (calls @ [AssetSize asset]))"

record 'f load_result =
  loaded :: "'f list option"
  valid_collections :: "'f list list"
  missing_assets :: "string list"
  load_calls :: "ee_call list"

text \<open>
  \<open>load_storage_polygons\<close>, with the asset list as a parameter. The \<open>merge\<close> of
  the backend is not in the repository; as the specification has it, the merged
  collection holds the features of the first collection followed by those of the
  second, with no deduplication.
\<close>

definition load_storage_polygons :: "string list \<Rightarrow> 'f backend \<Rightarrow> 'f load_result" where
  "load_storage_polygons region_assets b =
     (case load_loop b region_assets [] [] [] of
        (valid, missing, calls) \<Rightarrow>
          if valid = []
          then \<lparr> loaded = None, valid_collections = valid, missing_assets = missing,
                 load_calls = calls \<rparr>
          else
            let merged_coll = foldl (@) (hd valid) (tl valid)
            in if merged_size_ok b
               then \<lparr> loaded = Some merged_coll, valid_collections = valid,
                      missing_assets = missing, load_calls = calls @ [MergedSize] \<rparr>
               else \<lparr> loaded = None, valid_collections = valid,
                      missing_assets = missing, load_calls = calls @ [MergedSize] \<rparr>)"

text \<open>An asset is accepted when it resolves with at least one feature.\<close>

definition accepted :: "'f backend \<Rightarrow> string \<Rightarrow> bool" where
  "accepted b asset =
     (case asset_lookup b asset of Resolved collection \<Rightarrow> collection \<noteq> [] | _ \<Rightarrow> False)"

definition contents :: "'f backend \<Rightarrow> string \<Rightarrow> 'f list" where
  "contents b asset =
     (case asset_lookup b asset of Resolved collection \<Rightarrow> collection | _ \<Rightarrow> [])"

subsection \<open>The script\<close>

text \<open>
  \<open>run_extraction\<close>: initialise, load the polygons, generate the window starts, build
  the composites and the statistics (which are descriptions evaluated by the backend
  when the export runs) and start the export. The result is the calls made and the
  value returned or the exception raised; \<open>None\<close> when the date loop never ends.
\<close>

definition run_extraction ::
  "datetime \<Rightarrow> datetime \<Rightarrow> int \<Rightarrow> 'f backend \<Rightarrow> (ee_call list \<times> (py_error + bool)) option" where
  "run_extraction start end_date interval_days b =
     (if \<not> initialize_ok b then Some ([Initialize], Inr False)
      else
        let r = load_storage_polygons REGION_ASSETS b
        in case loaded r of
             None \<Rightarrow> Some (Initialize # load_calls r, Inr False)
           | Some storage_polygons \<Rightarrow>
               (case generate_date_list start end_date interval_days of
                  None \<Rightarrow> None
                | Some (Inl e) \<Rightarrow> Some (Initialize # load_calls r, Inl e)
                | Some (Inr dates) \<Rightarrow>
                    if export_ok b
                    then Some (Initialize # load_calls r @ [ExportStart], Inr True)
                    else Some (Initialize # load_calls r @ [ExportStart], Inl EEException)))"

text \<open>
  The module, run as a script: the weekday check of the configuration comes first, then
  \<open>run_extraction\<close> and the exit code.
\<close>

definition run_script ::
  "datetime \<Rightarrow> datetime \<Rightarrow> int \<Rightarrow> 'f backend \<Rightarrow> (ee_call list \<times> (py_error + int)) option" where
  "run_script start end_date interval_days b =
     (if weekday start \<noteq> EIA_RELEASE_WEEKDAY then Some ([], Inl ValueError)
      else case run_extraction start end_date interval_days b of
             None \<Rightarrow> None
           | Some (calls, Inl e) \<Rightarrow> Some (calls, Inl e)
           | Some (calls, Inr success) \<Rightarrow> Some (calls, Inr (if success then 0 else 1)))"

text \<open>Example backends and dates.\<close>

definition all_regions_backend :: "nat backend" where
  "all_regions_backend =
     \<lparr> initialize_ok = True, asset_lookup = (\<lambda>asset. Resolved [1, 2, 3]),
       merged_size_ok = True, export_ok = True \<rparr>"

definition patchy_backend :: "nat backend" where
  "patchy_backend =
     \<lparr> initialize_ok = True,
       asset_lookup = (\<lambda>asset.
         if asset = ''a'' then Resolved [1, 2]
         else if asset = ''b'' then Resolved []
         else if asset = ''c'' then RaisesEEException
         else if asset = ''d'' then Resolved [3]
         else RaisesOther),
       merged_size_ok = True, export_ok = True \<rparr>"

definition failing_merge_backend :: "nat backend" where
  "failing_merge_backend = patchy_backend \<lparr> merged_size_ok := False \<rparr>"

definition thursday :: datetime where
  "thursday = \<lparr> year = 2024, month = 1, day = 4 \<rparr>"

section \<open>tank\_polygons\_by\_region.py: fetching the tanks of a region\<close>

subsection \<open>The response of the feature database\<close>

text \<open>
  A point is a pair (longitude, latitude). The coordinates are rational numbers; the
  script compares them for equality only.
\<close>

type_synonym point = "rat \<times> rat"

text \<open>
  An element of the response, a JSON object: each key the script reads is present or
  absent. Reading an absent key with \<open>el[key]\<close> raises \<open>KeyError\<close>.
\<close>

record element =
  el_type :: "string option"
  el_id :: "int option"
  el_lon :: "rat option"
  el_lat :: "rat option"
  el_nodes :: "int list option"
  el_tags :: "(string \<rightharpoonup> string) option"

record response_body =
  remark :: "string option"
  elements :: "element list option"

text \<open>
  What one attempt meets between \<open>requests.post\<close> and \<open>response.json()\<close>: one of
  the exceptions the script names, another exception, an interrupt, or the decoded
  body.
\<close>

datatype http_outcome =
  Timeout | RequestException | JSONDecodeError | Unexpected | Interrupted
  | Body response_body

text \<open>
  What the script does to the outside, in order: it posts a query to a server and it
  sleeps for a number of seconds.
\<close>

datatype io_event = Post string string | Sleep nat

subsection \<open>The geometry library\<close>

text \<open>
  The script builds polygons with the Shapely library, which is not part of the
  repository: the constructor \<open>Polygon\<close>, which may raise, the test \<open>is_valid\<close>,
  \<open>area\<close> and \<open>mapping\<close>, which gives the coordinates back. They are parameters of
  the model.
\<close>

record 'p shapely =
  Polygon :: "point list \<Rightarrow> py_error + 'p"
  is_valid :: "'p \<Rightarrow> bool"
  area :: "'p \<Rightarrow> rat"
  mapping :: "'p \<Rightarrow> point list"

subsection \<open>Assembling the polygons\<close>

definition OVERPASS_SERVERS :: "string list" where
  "OVERPASS_SERVERS =
     [''https://overpass-api.de/api/interpreter'',
      ''https://overpass.kumi.systems/api/interpreter'',
      ''https://overpass.openstreetmap.ru/api/interpreter'']"

text \<open>\<open>build_query\<close>: the query text for a bounding box, line by line.\<close>

definition build_query :: "string \<Rightarrow> string" where
  "build_query bbox =
     concat (map (\<lambda>line. line @ [CHR 0x0A])
       [[],
        ''[out:json][timeout:180];'',
        ''('',
        ''  way['' @ [CHR 0x22] @ ''man_made'' @ [CHR 0x22] @ ''='' @ [CHR 0x22]
           @ ''storage_tank'' @ [CHR 0x22] @ '']('' @ bbox @ '');'',
        ''  relation['' @ [CHR 0x22] @ ''man_made'' @ [CHR 0x22] @ ''='' @ [CHR 0x22]
           @ ''storage_tank'' @ [CHR 0x22] @ '']('' @ bbox @ '');'',
        '');'',
        ''out body;'',
        ''>;'',
        ''out skel qt;''])"

text \<open>
  The dictionary \<open>nodes\<close>: the comprehension reads \<open>el['type']\<close> of every element,
  and \<open>id\<close>, \<open>lon\<close> and \<open>lat\<close> of every node; a later node replaces an earlier one
  with the same id.
\<close>

fun build_nodes :: "element list \<Rightarrow> (int \<rightharpoonup> point) \<Rightarrow> py_error + (int \<rightharpoonup> point)" where
  "build_nodes [] nodes = Inr nodes"
| "build_nodes (el # els) nodes =
     (case el_type el of
        None \<Rightarrow> Inl KeyError
      | Some t \<Rightarrow>
          if t = ''node''
          then (case (el_id el, el_lon el, el_lat el) of
                  (Some i, Some lon, Some lat) \<Rightarrow> build_nodes els (nodes(i \<mapsto> (lon, lat)))
                | _ \<Rightarrow> Inl KeyError)
          else build_nodes els nodes)"

text \<open>\<open>[nodes[n] for n in el['nodes'] if n in nodes]\<close>\<close>

definition way_coords :: "(int \<rightharpoonup> point) \<Rightarrow> int list \<Rightarrow> point list" where
  "way_coords nodes ns = List.map_filter nodes ns"

text \<open>
  \<open>if coords[0] != coords[-1]: coords.append(coords[0])\<close>, reached with at least
  three coordinates.
\<close>

definition close_ring :: "point list \<Rightarrow> point list" where
  "close_ring coords = (if hd coords \<noteq> last coords then coords @ [hd coords] else coords)"

text \<open>
  \<open>except Exception\<close> catches every exception of the model but
  \<open>KeyboardInterrupt\<close>, which leaves the \<open>try\<close> statement.
\<close>

definition is_Exception :: "py_error \<Rightarrow> bool" where
  "is_Exception e = (e \<noteq> KeyboardInterrupt)"

text \<open>
  The validation of one candidate ring: the length test, the closing of the ring, the
  construction inside \<open>try\<close>, and the test \<open>poly.is_valid and poly.area > 0\<close>. The
  result is the polygon accepted, \<open>None\<close> for a ring that is dropped, or the exception
  that \<open>except Exception: continue\<close> does not catch.
\<close>

definition validate_ring :: "'p shapely \<Rightarrow> point list \<Rightarrow> py_error + 'p option" where
  "validate_ring lib coords =
     (if length coords < 3 then Inr None
      else case Polygon lib (close_ring coords) of
             Inl e \<Rightarrow> if is_Exception e then Inr None else Inl e
           | Inr poly \<Rightarrow>
               if is_valid lib poly \<and> area lib poly > 0 then Inr (Some poly) else Inr None)"

text \<open>The properties of a tank: its id, its location, and the two tags when present.\<close>

definition tank_properties :: "int \<Rightarrow> string \<Rightarrow> (string \<rightharpoonup> string) option \<Rightarrow> (string \<rightharpoonup> py_value)" where
  "tank_properties i location_name tags =
     (let properties = [''tank_id'' \<mapsto> PInt i, ''location'' \<mapsto> PStr location_name]
      in case tags of
           None \<Rightarrow> properties
         | Some tg \<Rightarrow>
             let properties = (case tg ''content'' of
                                 None \<Rightarrow> properties
                               | Some c \<Rightarrow> properties(''content'' \<mapsto> PStr c))
             in (case tg ''substance'' of
                   None \<Rightarrow> properties
                 | Some s \<Rightarrow> properties(''substance'' \<mapsto> PStr s)))"

text \<open>
  The body of the loop \<open>for el in elements\<close> for one element: the features it adds,
  none or one, or the exception that leaves the loop. A way without \<open>id\<close> raises
  \<open>KeyError\<close> inside the inner \<open>try\<close> and is skipped.
\<close>

definition way_features ::
  "'p shapely \<Rightarrow> string \<Rightarrow> (int \<rightharpoonup> point) \<Rightarrow> element
     \<Rightarrow> py_error + point list feature list" where
  "way_features lib location_name nodes el =
     (case el_nodes el of
        None \<Rightarrow> Inr []
      | Some ns \<Rightarrow>
          if el_type el = Some ''way''
          then (case validate_ring lib (way_coords nodes ns) of
                  Inl e \<Rightarrow> Inl e
                | Inr None \<Rightarrow> Inr []
                | Inr (Some poly) \<Rightarrow>
                    (case el_id el of
                       None \<Rightarrow> Inr []
                     | Some i \<Rightarrow>
                         Inr [\<lparr> geometry = mapping lib poly,
                                properties = tank_properties i location_name (el_tags el) \<rparr>]))
          else Inr [])"

fun ways_loop ::
  "'p shapely \<Rightarrow> string \<Rightarrow> (int \<rightharpoonup> point) \<Rightarrow> element list \<Rightarrow> point list feature list
     \<Rightarrow> py_error + point list feature list" where
  "ways_loop lib location_name nodes [] features = Inr features"
| "ways_loop lib location_name nodes (el # els) features =
     (case way_features lib location_name nodes el of
        Inl e \<Rightarrow> Inl e
      | Inr added \<Rightarrow> ways_loop lib location_name nodes els (features @ added))"

text \<open>
  The part of the \<open>try\<close> block after \<open>response.json()\<close>: the features of the body,
  or the exception that leaves the block.
\<close>

definition process_body ::
  "'p shapely \<Rightarrow> string \<Rightarrow> response_body \<Rightarrow> py_error + point list feature list" where
  "process_body lib location_name data =
     (let els = (case elements data of None \<Rightarrow> [] | Some es \<Rightarrow> es)
      in case build_nodes els Map.empty of
           Inl e \<Rightarrow> Inl e
         | Inr nodes \<Rightarrow> ways_loop lib location_name nodes els [])"

subsection \<open>The retry loop\<close>

text \<open>
  One attempt: the features returned, the exception that an \<open>except\<close> clause of the
  script catches, or the interrupt that none catches.
\<close>

datatype 'a attempt_result = Returned 'a | Caught | Escaped py_error

definition run_attempt ::
  "'p shapely \<Rightarrow> string \<Rightarrow> http_outcome \<Rightarrow> point list feature list attempt_result" where
  "run_attempt lib location_name outcome =
     (case outcome of
        Timeout \<Rightarrow> Caught
      | RequestException \<Rightarrow> Caught
      | JSONDecodeError \<Rightarrow> Caught
      | Unexpected \<Rightarrow> Caught
      | Interrupted \<Rightarrow> Escaped KeyboardInterrupt
      | Body data \<Rightarrow>
          (case process_body lib location_name data of
             Inl e \<Rightarrow> if is_Exception e then Caught else Escaped e
           | Inr features \<Rightarrow> Returned features))"

text \<open>
  The loop \<open>for attempt in range(max_retries)\<close>. The answer of the network to attempt
  \<open>attempt\<close> at \<open>server\<close> is \<open>respond attempt server\<close>. The result is the events in
  order and the value returned or the exception raised.
\<close>

fun fetch_loop ::
  "'p shapely \<Rightarrow> (nat \<Rightarrow> string \<Rightarrow> http_outcome) \<Rightarrow> string \<Rightarrow> string \<Rightarrow> int \<Rightarrow> nat list
     \<Rightarrow> io_event list \<Rightarrow> io_event list \<times> (py_error + point list feature list)" where
  "fetch_loop lib respond location_name bbox max_retries [] events = (events, Inr [])"
| "fetch_loop lib respond location_name bbox max_retries (attempt # rest) events =
     (let server = OVERPASS_SERVERS ! (attempt mod length OVERPASS_SERVERS);
          query = build_query bbox;
          events = events @ (if attempt > 0 then [Sleep (5 * attempt)] else [])
                     @ [Post server query]
      in case run_attempt lib location_name (respond attempt server) of
           Returned features \<Rightarrow> (events @ [Sleep 2], Inr features)
         | Escaped e \<Rightarrow> (events, Inl e)
         | Caught \<Rightarrow>
             if int attempt = max_retries - 1 then (events, Inr [])
             else fetch_loop lib respond location_name bbox max_retries rest events)"

definition fetch_tanks ::
  "'p shapely \<Rightarrow> (nat \<Rightarrow> string \<Rightarrow> http_outcome) \<Rightarrow> string \<Rightarrow> string \<Rightarrow> int
     \<Rightarrow> io_event list \<times> (py_error + point list feature list)" where
  "fetch_tanks lib respond location_name bbox max_retries =
     fetch_loop lib respond location_name bbox max_retries [0..<nat max_retries] []"

subsection \<open>An exact geometry library\<close>

text \<open>
  Modelled from the spec: Shapely's \<open>Polygon\<close>, \<open>is_valid\<close> and \<open>area\<close> are
  not in the repository. The specification asks for a polygon that is geometrically
  valid (no self-intersections) and has strictly positive area; this instance of the
  library decides both in exact arithmetic, for rings given as coordinate lists. The
  area of a closed ring is half the absolute value of the sum of the cross products of
  its consecutive points.
\<close>

definition cross2 :: "point \<Rightarrow> point \<Rightarrow> rat" where
  "cross2 p q = fst p * snd q - fst q * snd p"

fun shoelace :: "point list \<Rightarrow> rat" where
  "shoelace (p # q # ps) = cross2 p q + shoelace (q # ps)"
| "shoelace ps = 0"

definition ring_area :: "point list \<Rightarrow> rat" where
  "ring_area ring = \<bar>shoelace ring\<bar> / 2"

text \<open>
  Two segments meet when they cross or when an end point of one lies on the other.
  \<open>orient p q r\<close> is the side of the line through \<open>p\<close> and \<open>q\<close> on which
  \<open>r\<close> lies, the sign of \<open>turn p q r\<close>.
\<close>

definition turn :: "point \<Rightarrow> point \<Rightarrow> point \<Rightarrow> rat" where
  "turn p q r = (fst q - fst p) * (snd r - snd p) - (snd q - snd p) * (fst r - fst p)"

definition orient :: "point \<Rightarrow> point \<Rightarrow> point \<Rightarrow> rat" where
  "orient p q r =
     sgn ((fst q - fst p) * (snd r - snd p) - (snd q - snd p) * (fst r - fst p))"

definition on_segment :: "point \<Rightarrow> point \<Rightarrow> point \<Rightarrow> bool" where
  "on_segment p q r =
     (orient p q r = 0
      \<and> min (fst p) (fst q) \<le> fst r \<and> fst r \<le> max (fst p) (fst q)
      \<and> min (snd p) (snd q) \<le> snd r \<and> snd r \<le> max (snd p) (snd q))"

definition segments_meet :: "point \<Rightarrow> point \<Rightarrow> point \<Rightarrow> point \<Rightarrow> bool" where
  "segments_meet a b c d =
     ((orient a b c \<noteq> orient a b d \<and> orient c d a \<noteq> orient c d b)
      \<or> on_segment a b c \<or> on_segment a b d \<or> on_segment c d a \<or> on_segment c d b)"

text \<open>
  A closed ring is simple when two of its edges meet only if they follow each other
  (the last edge is followed by the first), and then only in the point they share.
\<close>

definition ring_edges :: "point list \<Rightarrow> (point \<times> point) list" where
  "ring_edges ring = zip ring (tl ring)"

definition edge_pair_ok :: "(point \<times> point) list \<Rightarrow> nat \<Rightarrow> nat \<Rightarrow> bool" where
  "edge_pair_ok es i j =
     (case (es ! i, es ! j) of
        ((a, b), (c, d)) \<Rightarrow>
          if j = i + 1 then \<not> on_segment a b d \<and> \<not> on_segment c d a
          else if i = 0 \<and> j + 1 = length es then \<not> on_segment a b c \<and> \<not> on_segment c d b
          else \<not> segments_meet a b c d)"

definition ring_simple :: "point list \<Rightarrow> bool" where
  "ring_simple ring =
     (let es = ring_edges ring
      in list_all (\<lambda>i. list_all (\<lambda>j. edge_pair_ok es i j) [i + 1..<length es])
           [0..<length es])"

text \<open>
  Modelled from the spec: the library as a whole. The constructor raises below three
  coordinates and closes an open ring or a ring of three coordinates by repeating its
  first point; a polygon is valid when its ring, repeated points removed, is closed, has
  at least four points and is simple.
\<close>

definition exact_shapely :: "point list shapely" where
  "exact_shapely =
     \<lparr> Polygon = (\<lambda>coords.
         if length coords < 3 then Inl ValueError
         else if length coords = 3 \<or> hd coords \<noteq> last coords then Inr (coords @ [hd coords])
         else Inr coords),
       is_valid = (\<lambda>ring.
         let r = remdups_adj ring in 4 \<le> length r \<and> hd r = last r \<and> ring_simple r),
       area = ring_area,
       mapping = (\<lambda>ring. ring) \<rparr>"

text \<open>Example rings: a square, open and closed, a bow tie, three points on a line,
  a ring of two points.\<close>

definition square_open :: "point list" where
  "square_open = [(0, 0), (1, 0), (1, 1), (0, 1)]"

definition square_closed :: "point list" where
  "square_closed = [(0, 0), (1, 0), (1, 1), (0, 1), (0, 0)]"

definition bow_tie :: "point list" where
  "bow_tie = [(0, 0), (2, 2), (2, 0), (0, 1)]"

definition flat_ring :: "point list" where
  "flat_ring = [(0, 0), (1, 1), (2, 2)]"

definition two_point_ring :: "point list" where
  "two_point_ring = [(0, 0), (1, 1), (1, 1), (0, 0)]"

text \<open>
  Geometric conditions on rings, stated without the library. A ring has crossing edges
  when two of its edges that do not follow each other meet. A quadrilateral is convex
  when its four corners all turn the same way.
\<close>

definition crossing_edges :: "point list \<Rightarrow> bool" where
  "crossing_edges ring =
     (let es = ring_edges ring
      in list_ex (\<lambda>i. list_ex (\<lambda>j.
             \<not> (i = 0 \<and> j + 1 = length es)
             \<and> (case (es ! i, es ! j) of ((a, b), (c, d)) \<Rightarrow> segments_meet a b c d))
           [i + 2..<length es]) [0..<length es])"

definition convex_quad :: "point \<Rightarrow> point \<Rightarrow> point \<Rightarrow> point \<Rightarrow> bool" where
  "convex_quad a b c d =
     (orient a b c \<noteq> 0 \<and> orient b c d = orient a b c
      \<and> orient c d a = orient a b c \<and> orient d a b = orient a b c)"

text \<open>
  An example body: the corners of the unit square and two more nodes; the square as a
  closed way with a \<open>content\<close> tag, a bow tie, a way of two nodes and three nodes on
  a line.
\<close>

definition node_el :: "int \<Rightarrow> rat \<Rightarrow> rat \<Rightarrow> element" where
  "node_el i lon lat =
     \<lparr> el_type = Some ''node'', el_id = Some i, el_lon = Some lon, el_lat = Some lat,
       el_nodes = None, el_tags = None \<rparr>"

definition way_el :: "int \<Rightarrow> int list \<Rightarrow> (string \<rightharpoonup> string) option \<Rightarrow> element" where
  "way_el i ns tags =
     \<lparr> el_type = Some ''way'', el_id = Some i, el_lon = None, el_lat = None,
       el_nodes = Some ns, el_tags = tags \<rparr>"

definition example_body :: response_body where
  "example_body =
     \<lparr> remark = None,
       elements = Some
         [node_el 1 0 0, node_el 2 1 0, node_el 3 1 1, node_el 4 0 1,
          node_el 5 2 2, node_el 6 2 0,
          way_el 100 [1, 2, 3, 4, 1] (Some [''content'' \<mapsto> ''oil'']),
          way_el 101 [1, 5, 6, 4] None,
          way_el 102 [1, 2] None,
          way_el 103 [1, 3, 5] None] \<rparr>"

definition example_tank :: "point list feature" where
  "example_tank =
     \<lparr> geometry = square_closed,
       properties = [''tank_id'' \<mapsto> PInt 100, ''location'' \<mapsto> PStr ''Cushing, OK'',
                     ''content'' \<mapsto> PStr ''oil''] \<rparr>"

definition square_nodes :: "int \<rightharpoonup> point" where
  "square_nodes = [1 \<mapsto> (0, 0), 2 \<mapsto> (1, 0), 3 \<mapsto> (1, 1), 4 \<mapsto> (0, 1)]"

text \<open>A library whose constructor is interrupted, and one whose constructor raises.\<close>

definition interrupted_shapely :: "point list shapely" where
  "interrupted_shapely = exact_shapely \<lparr> Polygon := (\<lambda>coords. Inl KeyboardInterrupt) \<rparr>"

definition raising_shapely :: "point list shapely" where
  "raising_shapely = exact_shapely \<lparr> Polygon := (\<lambda>coords. Inl ValueError) \<rparr>"

subsection \<open>The events the specification expects of one attempt\<close>

text \<open>
  Attempt \<open>i\<close> (counted from 0) sleeps \<open>5 * i\<close> seconds when it is a retry and then
  posts the query to the server at index \<open>i mod len(servers)\<close>.
\<close>

definition server_of :: "nat \<Rightarrow> string" where
  "server_of i = OVERPASS_SERVERS ! (i mod length OVERPASS_SERVERS)"

definition attempt_events :: "string \<Rightarrow> nat \<Rightarrow> io_event list" where
  "attempt_events bbox i =
     (if i > 0 then [Sleep (5 * i)] else []) @ [Post (server_of i) (build_query bbox)]"

definition is_post :: "io_event \<Rightarrow> bool" where
  "is_post e = (case e of Post server query \<Rightarrow> True | Sleep n \<Rightarrow> False)"

text \<open>Example answers of the network and an example body.\<close>

definition three_failures :: "nat \<Rightarrow> string \<Rightarrow> http_outcome" where
  "three_failures attempt server =
     (if attempt = 0 then Timeout else if attempt = 1 then RequestException
      else JSONDecodeError)"

definition empty_body :: response_body where
  "empty_body = \<lparr> remark = None, elements = Some [] \<rparr>"

definition empty_region :: "nat \<Rightarrow> string \<Rightarrow> http_outcome" where
  "empty_region attempt server = (if attempt = 0 then Timeout else Body empty_body)"

section \<open>Properties of the merge\<close>

subsection \<open>The loop, characterised\<close>

lemma dedup_loop_seen:
  "fst (dedup_loop fs seen uniq) = seen \<union> tank_id_of ` set fs"
  by (induction fs arbitrary: seen uniq) (auto simp: Let_def)

lemma dedup_loop_prefix:
  "\<exists>kept. snd (dedup_loop fs seen uniq) = uniq @ kept \<and> snd (dedup_loop fs seen []) = kept"
proof (induction fs arbitrary: seen uniq)
  case Nil
  show ?case by simp
next
  case (Cons f fs)
  show ?case
  proof (cases "tank_id_of f \<in> seen")
    case True
    with Cons.IH [of seen uniq] show ?thesis by (simp add: Let_def)
  next
    case False
    from Cons.IH [of "insert (tank_id_of f) seen" "uniq @ [f]"]
    obtain k1 where k1: "snd (dedup_loop fs (insert (tank_id_of f) seen) (uniq @ [f])) = (uniq @ [f]) @ k1"
      "snd (dedup_loop fs (insert (tank_id_of f) seen) []) = k1" by blast
    from Cons.IH [of "insert (tank_id_of f) seen" "[f]"]
    obtain k2 where k2: "snd (dedup_loop fs (insert (tank_id_of f) seen) [f]) = [f] @ k2"
      "snd (dedup_loop fs (insert (tank_id_of f) seen) []) = k2" by blast
    from k1 k2 False show ?thesis by (simp add: Let_def)
  qed
qed

lemma dedup_loop_acc:
  "snd (dedup_loop fs seen uniq) = uniq @ snd (dedup_loop fs seen [])"
  using dedup_loop_prefix [of fs seen uniq] by auto

text \<open>The loop as a recursion without the output accumulator.\<close>

lemma dedup_loop_Cons:
  "snd (dedup_loop (f # fs) seen []) =
     (if tank_id_of f \<in> seen then snd (dedup_loop fs seen [])
      else f # snd (dedup_loop fs (insert (tank_id_of f) seen) []))"
  using dedup_loop_acc [of fs "insert (tank_id_of f) seen" "[f]"] by (simp add: Let_def)

lemma dedup_loop_Nil: "snd (dedup_loop [] seen []) = []"
  by simp

lemmas dedup_rec = dedup_loop_Nil dedup_loop_Cons

lemma dedup_subseq: "subseq (snd (dedup_loop fs seen [])) fs"
proof (induction fs arbitrary: seen)
  case Nil
  show ?case by simp
next
  case (Cons f fs)
  show ?case using Cons.IH by (auto simp: dedup_rec simp del: dedup_loop.simps)
qed

lemma dedup_ids:
  "tank_id_of ` set (snd (dedup_loop fs seen [])) = tank_id_of ` set fs - seen"
proof (induction fs arbitrary: seen)
  case Nil
  show ?case by simp
next
  case (Cons f fs)
  show ?case using Cons.IH by (auto simp: dedup_rec simp del: dedup_loop.simps)
qed

lemma dedup_distinct: "distinct (map tank_id_of (snd (dedup_loop fs seen [])))"
proof (induction fs arbitrary: seen)
  case Nil
  show ?case by simp
next
  case (Cons f fs)
  show ?case
    using Cons.IH dedup_ids [of fs "insert (tank_id_of f) seen"]
    by (auto simp: dedup_rec simp del: dedup_loop.simps)
qed

lemma dedup_first:
  "g \<in> set (snd (dedup_loop fs seen [])) \<Longrightarrow>
   find (\<lambda>h. tank_id_of h = tank_id_of g) fs = Some g"
proof (induction fs arbitrary: seen)
  case Nil
  then show ?case by simp
next
  case (Cons f fs)
  show ?case
  proof (cases "tank_id_of f \<in> seen")
    case True
    with Cons.prems have g: "g \<in> set (snd (dedup_loop fs seen []))"
      by (simp add: dedup_rec del: dedup_loop.simps)
    then have "tank_id_of g \<in> tank_id_of ` set fs - seen"
      using dedup_ids [of fs seen] by blast
    with True have "tank_id_of f \<noteq> tank_id_of g" by auto
    with Cons.IH [OF g] show ?thesis by simp
  next
    case False
    with Cons.prems
    have "g = f \<or> g \<in> set (snd (dedup_loop fs (insert (tank_id_of f) seen) []))"
      by (simp add: dedup_rec del: dedup_loop.simps)
    then show ?thesis
    proof
      assume "g = f"
      then show ?thesis by simp
    next
      assume g: "g \<in> set (snd (dedup_loop fs (insert (tank_id_of f) seen) []))"
      then have "tank_id_of g \<in> tank_id_of ` set fs - insert (tank_id_of f) seen"
        using dedup_ids [of fs "insert (tank_id_of f) seen"] by blast
      then have "tank_id_of f \<noteq> tank_id_of g" by auto
      with Cons.IH [OF g] show ?thesis by simp
    qed
  qed
qed

lemma dedup_all_seen:
  "tank_id_of ` set fs \<subseteq> seen \<Longrightarrow> snd (dedup_loop fs seen []) = []"
  by (induction fs arbitrary: seen) (auto simp: dedup_rec simp del: dedup_loop.simps)

lemma dedup_distinct_id:
  "distinct (map tank_id_of fs) \<Longrightarrow> tank_id_of ` set fs \<inter> seen = {} \<Longrightarrow>
   snd (dedup_loop fs seen []) = fs"
proof (induction fs arbitrary: seen)
  case Nil
  show ?case by simp
next
  case (Cons f fs)
  from Cons.prems have "tank_id_of f \<notin> seen" by auto
  moreover from Cons.prems
  have "snd (dedup_loop fs (insert (tank_id_of f) seen) []) = fs"
    by (intro Cons.IH) auto
  ultimately show ?case by (simp add: dedup_rec del: dedup_loop.simps)
qed

lemma dedup_append:
  "snd (dedup_loop (xs @ ys) seen []) =
   snd (dedup_loop xs seen []) @ snd (dedup_loop ys (seen \<union> tank_id_of ` set xs) [])"
proof (induction xs arbitrary: seen)
  case Nil
  show ?case by simp
next
  case (Cons f fs)
  have *: "insert (tank_id_of f) seen \<union> tank_id_of ` set fs
             = seen \<union> tank_id_of ` set (f # fs)" by auto
  have **: "tank_id_of f \<in> seen \<Longrightarrow>
              seen \<union> tank_id_of ` set fs = seen \<union> tank_id_of ` set (f # fs)" by auto
  show ?case
    using Cons.IH [of seen] Cons.IH [of "insert (tank_id_of f) seen"] * **
    by (simp add: dedup_rec del: set_simps image_insert dedup_loop.simps)
qed

lemma dedup_filter_id:
  "filter (\<lambda>f. tank_id_of f = v) (snd (dedup_loop fs seen [])) =
   (if v \<in> seen then [] else take 1 (filter (\<lambda>f. tank_id_of f = v) fs))"
proof (induction fs arbitrary: seen)
  case Nil
  show ?case by simp
next
  case (Cons f fs)
  show ?case
    using Cons.IH [of seen] Cons.IH [of "insert (tank_id_of f) seen"]
    by (auto simp add: dedup_rec simp del: dedup_loop.simps)
qed

lemmas scenario_defs =
  merge_tanker_jsons_def scenario_file1_def scenario_file2_def unique_features_def
  tank_def untagged_def tank_id_of_def dict_get_def Let_def

subsection \<open>Claims about the merge\<close>

text \<open>
  C2. The merge concatenates the two files in order and keeps, for each \<open>tank_id\<close>,
  the first feature carrying it, unchanged: the output is a subsequence of the
  concatenation, its ids are distinct and are exactly the ids of the input, and every
  kept feature is the first feature of the input with its id, whatever the geometries
  are. The counts are the input size, the output size and their difference. For the
  files \<open>[1, 2]\<close> and \<open>[2, 3]\<close> the output is \<open>[1, 2 (of the first file), 3]\<close> with
  4 input polygons, 3 unique and 1 duplicate removed.
\<close>

theorem merge_first_wins:
  "subseq (merged (merge_tanker_jsons data1 data2)) (data1 @ data2)
   \<and> distinct (map tank_id_of (merged (merge_tanker_jsons data1 data2)))
   \<and> tank_id_of ` set (merged (merge_tanker_jsons data1 data2)) = tank_id_of ` set (data1 @ data2)
   \<and> (\<forall>g \<in> set (merged (merge_tanker_jsons data1 data2)).
         find (\<lambda>h. tank_id_of h = tank_id_of g) (data1 @ data2) = Some g)
   \<and> total_tanks (merge_tanker_jsons data1 data2) = length data1 + length data2
   \<and> unique_tanks (merge_tanker_jsons data1 data2) = length (merged (merge_tanker_jsons data1 data2))
   \<and> duplicates_removed (merge_tanker_jsons data1 data2)
       = int (length data1 + length data2) - int (length (merged (merge_tanker_jsons data1 data2)))
   \<and> merged (merge_tanker_jsons scenario_file1 scenario_file2)
       = [tank 1 ''a1'', tank 2 ''a2'', tank 3 ''b3'']
   \<and> total_tanks (merge_tanker_jsons scenario_file1 scenario_file2) = 4
   \<and> unique_tanks (merge_tanker_jsons scenario_file1 scenario_file2) = 3
   \<and> duplicates_removed (merge_tanker_jsons scenario_file1 scenario_file2) = 1"
proof -
  have m: "merged (merge_tanker_jsons data1 data2) = snd (dedup_loop (data1 @ data2) {} [])"
    by (simp add: merge_tanker_jsons_def unique_features_def Let_def)
  have a: "subseq (merged (merge_tanker_jsons data1 data2)) (data1 @ data2)"
    unfolding m by (rule dedup_subseq)
  have b: "distinct (map tank_id_of (merged (merge_tanker_jsons data1 data2)))"
    unfolding m by (rule dedup_distinct)
  have c: "tank_id_of ` set (merged (merge_tanker_jsons data1 data2))
             = tank_id_of ` set (data1 @ data2)"
    unfolding m using dedup_ids [of "data1 @ data2" "{}"] by simp
  have d: "\<forall>g \<in> set (merged (merge_tanker_jsons data1 data2)).
             find (\<lambda>h. tank_id_of h = tank_id_of g) (data1 @ data2) = Some g"
    unfolding m using dedup_first by blast
  have e: "total_tanks (merge_tanker_jsons data1 data2) = length data1 + length data2"
    "unique_tanks (merge_tanker_jsons data1 data2) = length (merged (merge_tanker_jsons data1 data2))"
    "duplicates_removed (merge_tanker_jsons data1 data2)
       = int (length data1 + length data2) - int (length (merged (merge_tanker_jsons data1 data2)))"
    by (simp_all add: merge_tanker_jsons_def Let_def)
  have s: "merged (merge_tanker_jsons scenario_file1 scenario_file2)
             = [tank 1 ''a1'', tank 2 ''a2'', tank 3 ''b3'']"
    "total_tanks (merge_tanker_jsons scenario_file1 scenario_file2) = 4"
    "unique_tanks (merge_tanker_jsons scenario_file1 scenario_file2) = 3"
    "duplicates_removed (merge_tanker_jsons scenario_file1 scenario_file2) = 1"
    by (simp_all add: scenario_defs)
  from a b c d e s show ?thesis by blast
qed

theorem merge_first_wins_witness:
  "tank 2 ''a2'' \<in> set (merged (merge_tanker_jsons scenario_file1 scenario_file2))
   \<and> find (\<lambda>h. tank_id_of h = tank_id_of (tank 2 ''a2'')) (scenario_file1 @ scenario_file2)
       = Some (tank 2 ''a2'')
   \<and> tank 2 ''b2'' \<notin> set (merged (merge_tanker_jsons scenario_file1 scenario_file2))"
proof -
  have kept: "tank 2 ''a2'' \<in> set (merged (merge_tanker_jsons scenario_file1 scenario_file2))"
    by (simp add: scenario_defs)
  have dropped: "tank 2 ''b2'' \<notin> set (merged (merge_tanker_jsons scenario_file1 scenario_file2))"
    by (simp add: scenario_defs)
  from merge_first_wins [of scenario_file1 scenario_file2] kept
  have "find (\<lambda>h. tank_id_of h = tank_id_of (tank 2 ''a2'')) (scenario_file1 @ scenario_file2)
          = Some (tank 2 ''a2'')"
    by blast
  with kept dropped show ?thesis by blast
qed

text \<open>
  C3. Deduplication is idempotent: when the \<open>tank_id\<close> values of a set \<open>S\<close> are
  pairwise different, merging \<open>S\<close> with itself gives back \<open>S\<close>, of the same size.
\<close>

theorem merge_self_idempotent:
  "distinct (map tank_id_of S) \<Longrightarrow>
   merged (merge_tanker_jsons S S) = S \<and> unique_tanks (merge_tanker_jsons S S) = length S"
proof -
  assume d: "distinct (map tank_id_of S)"
  have first: "snd (dedup_loop S {} []) = S"
    using d by (intro dedup_distinct_id) auto
  have second: "snd (dedup_loop S ({} \<union> tank_id_of ` set S) []) = []"
    by (intro dedup_all_seen) auto
  have "snd (dedup_loop (S @ S) {} []) = S"
    unfolding dedup_append first second by simp
  then show ?thesis
    by (simp add: merge_tanker_jsons_def unique_features_def Let_def)
qed

theorem merge_self_idempotent_witness:
  "distinct (map tank_id_of scenario_file1)
   \<and> merged (merge_tanker_jsons scenario_file1 scenario_file1) = scenario_file1
   \<and> unique_tanks (merge_tanker_jsons scenario_file1 scenario_file1) = length scenario_file1"
proof -
  have d: "distinct (map tank_id_of scenario_file1)"
    by (simp add: scenario_file1_def tank_def tank_id_of_def dict_get_def)
  from merge_self_idempotent [OF d] d show ?thesis by blast
qed

text \<open>
  C9. A feature without a \<open>tank_id\<close> key has the identifier \<open>None\<close>, the same as a
  feature whose \<open>tank_id\<close> is \<open>None\<close>. Of all the features of the input with that
  identifier the output holds the first and no other, whatever their geometries: two
  features without the key and with different geometries merge into the first one.
\<close>

theorem missing_tank_id_is_None:
  "(tank_id_of f = PNone)
     = (properties f ''tank_id'' = None \<or> properties f ''tank_id'' = Some PNone)
   \<and> filter (\<lambda>f. tank_id_of f = PNone) (unique_features fs)
       = take 1 (filter (\<lambda>f. tank_id_of f = PNone) fs)
   \<and> unique_features [untagged ''g1'', tank 7 ''g2'', untagged ''g3'']
       = [untagged ''g1'', tank 7 ''g2'']"
proof -
  have a: "(tank_id_of f = PNone)
     = (properties f ''tank_id'' = None \<or> properties f ''tank_id'' = Some PNone)"
    by (simp add: tank_id_of_def dict_get_def split: option.splits)
  have b: "filter (\<lambda>f. tank_id_of f = PNone) (unique_features fs)
       = take 1 (filter (\<lambda>f. tank_id_of f = PNone) fs)"
    unfolding unique_features_def dedup_filter_id by simp
  have c: "unique_features [untagged ''g1'', tank 7 ''g2'', untagged ''g3'']
       = [untagged ''g1'', tank 7 ''g2'']"
    by (simp add: scenario_defs)
  from a b c show ?thesis by blast
qed

section \<open>Properties of the weekly statistics pipeline\<close>

subsection \<open>The window starts\<close>

lemma window_starts_eval:
  "generate_date_list START_DATE END_DATE COMPOSITE_INTERVAL_DAYS =
     Some (Inr [''2024-01-03'', ''2024-01-10'', ''2024-01-17'', ''2024-01-24'', ''2024-01-31'',
                ''2024-02-07'', ''2024-02-14'', ''2024-02-21'', ''2024-02-28''])"
  by code_simp

text \<open>
  C1, as the code has it. For the anchor 2024-01-03, the end 2024-03-01 and the 7-day
  interval, \<open>generate_date_list\<close> returns the nine window starts from 2024-01-03 to
  2024-02-28 (2024-02-28 is still before the end date), in strictly increasing order.
\<close>

theorem window_starts_nine:
  "\<exists>dates. generate_date_list START_DATE END_DATE COMPOSITE_INTERVAL_DAYS = Some (Inr dates)
     \<and> dates = [''2024-01-03'', ''2024-01-10'', ''2024-01-17'', ''2024-01-24'', ''2024-01-31'',
                ''2024-02-07'', ''2024-02-14'', ''2024-02-21'', ''2024-02-28'']
     \<and> length dates = 9 \<and> sorted_wrt (<) dates"
proof -
  have "sorted_wrt (<)
          [''2024-01-03'', ''2024-01-10'', ''2024-01-17'', ''2024-01-24'', ''2024-01-31'',
           ''2024-02-07'', ''2024-02-14'', ''2024-02-21'', ''2024-02-28'']"
    by code_simp
  with window_starts_eval show ?thesis by simp
qed

text \<open>The length of the sequence is 9, not the 8 that C1 states.\<close>

theorem window_starts_not_eight:
  "map_option (map_sum id length)
     (generate_date_list START_DATE END_DATE COMPOSITE_INTERVAL_DAYS) = Some (Inr 9)
   \<and> map_option (map_sum id length)
     (generate_date_list START_DATE END_DATE COMPOSITE_INTERVAL_DAYS) \<noteq> Some (Inr 8)"
  by (simp add: window_starts_eval)

subsection \<open>The asset loader\<close>

lemma load_loop_eq:
  "load_loop b assets valid missing calls =
     (valid @ map (contents b) (filter (accepted b) assets),
      missing @ filter (\<lambda>a. asset_lookup b a = RaisesEEException
                             \<or> asset_lookup b a = RaisesOther) assets,
      calls @ map AssetSize assets)"
  by (induction assets arbitrary: valid missing calls)
     (auto simp: accepted_def contents_def split: asset_outcome.splits)

lemma foldl_append_concat: "foldl (@) acc xs = acc @ concat xs"
  by (induction xs arbitrary: acc) auto

lemma merge_fold: "valid \<noteq> [] \<Longrightarrow> foldl (@) (hd valid) (tl valid) = concat valid"
  by (cases valid) (auto simp: foldl_append_concat)

lemma load_valid:
  "valid_collections (load_storage_polygons assets b)
     = map (contents b) (filter (accepted b) assets)"
  by (simp add: load_storage_polygons_def load_loop_eq Let_def)

lemma load_none_accepted:
  "filter (accepted b) assets = [] \<Longrightarrow> loaded (load_storage_polygons assets b) = None"
  by (simp add: load_storage_polygons_def load_loop_eq)

lemma load_merge_fails:
  "\<not> merged_size_ok b \<Longrightarrow> loaded (load_storage_polygons assets b) = None"
  by (simp add: load_storage_polygons_def load_loop_eq Let_def)

lemma load_some_accepted:
  assumes "filter (accepted b) assets \<noteq> []" and "merged_size_ok b"
  shows "loaded (load_storage_polygons assets b)
           = Some (concat (map (contents b) (filter (accepted b) assets)))"
proof -
  have "map (contents b) (filter (accepted b) assets) \<noteq> []"
    using assms(1) by simp
  then show ?thesis
    using assms(2) by (simp add: load_storage_polygons_def load_loop_eq Let_def merge_fold)
qed

lemmas loader_defs =
  load_storage_polygons_def accepted_def contents_def patchy_backend_def
  failing_merge_backend_def all_regions_backend_def Let_def

text \<open>
  C7, as the code has it. The loader accepts exactly the assets that resolve with at
  least one feature, in the order of the asset list. With no asset accepted it returns
  no working set. With at least one asset accepted, and when forcing the size of the
  merged collection does not raise, it returns the accepted collections merged in
  order, whose size is the sum of their sizes; when that last evaluation raises, it
  returns no working set either.
\<close>

theorem loader_merges_accepted:
  "valid_collections (load_storage_polygons assets b)
     = map (contents b) (filter (accepted b) assets)
   \<and> (filter (accepted b) assets = [] \<longrightarrow> loaded (load_storage_polygons assets b) = None)
   \<and> (filter (accepted b) assets \<noteq> [] \<and> merged_size_ok b \<longrightarrow>
        (\<exists>merged_set. loaded (load_storage_polygons assets b) = Some merged_set
           \<and> merged_set = concat (map (contents b) (filter (accepted b) assets))
           \<and> length merged_set
               = sum_list (map (\<lambda>a. length (contents b a)) (filter (accepted b) assets))))
   \<and> (\<not> merged_size_ok b \<longrightarrow> loaded (load_storage_polygons assets b) = None)"
proof -
  have "length (concat (map (contents b) (filter (accepted b) assets)))
          = sum_list (map (\<lambda>a. length (contents b a)) (filter (accepted b) assets))"
    by (simp add: length_concat comp_def)
  with load_valid [of assets b] load_none_accepted [of b assets]
    load_some_accepted [of b assets] load_merge_fails [of b assets]
  show ?thesis by auto
qed

theorem loader_merges_accepted_witness:
  "filter (accepted patchy_backend) [''a'', ''b'', ''c'', ''d'', ''e''] = [''a'', ''d'']
   \<and> merged_size_ok patchy_backend
   \<and> loaded (load_storage_polygons [''a'', ''b'', ''c'', ''d'', ''e''] patchy_backend)
       = Some [1, 2, 3]
   \<and> loaded (load_storage_polygons [''b'', ''c''] patchy_backend) = None"
proof -
  have acc: "filter (accepted patchy_backend) [''a'', ''b'', ''c'', ''d'', ''e''] = [''a'', ''d'']"
    by (simp add: accepted_def patchy_backend_def)
  have ok: "merged_size_ok patchy_backend"
    by (simp add: patchy_backend_def)
  have cat: "concat (map (contents patchy_backend) [''a'', ''d'']) = [1, 2, 3]"
    by (simp add: contents_def patchy_backend_def)
  have none: "filter (accepted patchy_backend) [''b'', ''c''] = []"
    by (simp add: accepted_def patchy_backend_def)
  from loader_merges_accepted [of "[''a'', ''b'', ''c'', ''d'', ''e'']" patchy_backend] acc ok cat
  have "loaded (load_storage_polygons [''a'', ''b'', ''c'', ''d'', ''e''] patchy_backend)
          = Some [1, 2, 3]"
    by auto
  moreover from loader_merges_accepted [of "[''b'', ''c'']" patchy_backend] none
  have "loaded (load_storage_polygons [''b'', ''c''] patchy_backend) = None"
    by blast
  ultimately show ?thesis using acc ok by blast
qed

text \<open>
  Two assets are accepted, the evaluation of the merged size raises, and the loader
  returns no working set: an accepted asset alone does not give a merged set.
\<close>

theorem loader_accepted_but_none:
  "filter (accepted failing_merge_backend) [''a'', ''b'', ''c'', ''d'', ''e''] = [''a'', ''d'']
   \<and> valid_collections
        (load_storage_polygons [''a'', ''b'', ''c'', ''d'', ''e''] failing_merge_backend)
       = [[1, 2], [3]]
   \<and> loaded (load_storage_polygons [''a'', ''b'', ''c'', ''d'', ''e''] failing_merge_backend)
       = None"
  by (simp add: loader_defs)

subsection \<open>The weekday check\<close>

lemma add_days_error: "add_days t n = Inl e \<Longrightarrow> e = OverflowError"
  by (auto simp: add_days_def Let_def split: if_splits)

lemma date_loop_no_ValueError:
  assumes "date_loop current end_date interval_days dates = Some r"
  shows "r \<noteq> Inl ValueError"
proof (rule date_loop.raw_induct
    [where P = "\<lambda>current end_date interval_days dates r. r \<noteq> Inl ValueError", OF _ assms])
  fix loop :: "datetime \<Rightarrow> datetime \<Rightarrow> int \<Rightarrow> string list \<Rightarrow> (py_error + string list) option"
  fix c e i ds r
  assume IH: "\<And>c e i ds r. loop c e i ds = Some r \<Longrightarrow> r \<noteq> Inl ValueError"
  assume body: "(if dt_less c e
      then case add_days c i of Inl err \<Rightarrow> Some (Inl err)
           | Inr next_date \<Rightarrow> loop next_date e i (ds @ [strftime c])
      else Some (Inr ds)) = Some r"
  show "r \<noteq> Inl ValueError"
  proof (cases "dt_less c e")
    case False
    with body show ?thesis by auto
  next
    case True
    show ?thesis
    proof (cases "add_days c i")
      case (Inl err)
      with True body add_days_error [OF Inl] show ?thesis by auto
    next
      case (Inr next_date)
      with True body have "loop next_date e i (ds @ [strftime c]) = Some r" by simp
      then show ?thesis by (rule IH)
    qed
  qed
qed

lemma run_extraction_no_ValueError:
  "run_extraction start end_date interval_days b \<noteq> Some (calls, Inl ValueError)"
proof
  assume a: "run_extraction start end_date interval_days b = Some (calls, Inl ValueError)"
  then have "generate_date_list start end_date interval_days = Some (Inl ValueError)"
    by (auto simp: run_extraction_def Let_def split: if_splits option.splits sum.splits)
  then have "date_loop start end_date interval_days [] = Some (Inl ValueError)"
    by (simp add: generate_date_list_def)
  from date_loop_no_ValueError [OF this] show False by simp
qed

lemmas date_defs =
  toordinal_def ymd2ord_def days_before_year_def days_before_month_def DAYS_BEFORE_MONTH_def
  DAYS_IN_MONTH_def is_leap_def weekday_def START_DATE_def thursday_def
  EIA_RELEASE_WEEKDAY_def

text \<open>
  C8. The reference weekday is Wednesday (index 2). When the weekday of the anchor date
  differs from it, the script raises \<open>ValueError\<close> before any call reaches the backend;
  when it matches, as it does for 2024-01-03, the script raises no \<open>ValueError\<close>,
  whatever the backend answers.
\<close>

theorem weekday_check_first:
  "EIA_RELEASE_WEEKDAY = 2
   \<and> (weekday start \<noteq> EIA_RELEASE_WEEKDAY \<longrightarrow>
        run_script start end_date interval_days b = Some ([], Inl ValueError))
   \<and> (weekday start = EIA_RELEASE_WEEKDAY \<longrightarrow>
        (\<forall>calls. run_script start end_date interval_days b \<noteq> Some (calls, Inl ValueError)))
   \<and> weekday START_DATE = EIA_RELEASE_WEEKDAY"
proof -
  have a: "weekday start \<noteq> EIA_RELEASE_WEEKDAY \<longrightarrow>
        run_script start end_date interval_days b = Some ([], Inl ValueError)"
    by (simp add: run_script_def)
  have b: "weekday start = EIA_RELEASE_WEEKDAY \<longrightarrow>
        (\<forall>calls. run_script start end_date interval_days b \<noteq> Some (calls, Inl ValueError))"
    using run_extraction_no_ValueError [of start end_date interval_days b]
    by (auto simp: run_script_def split: option.splits sum.splits)
  have c: "weekday START_DATE = EIA_RELEASE_WEEKDAY" "EIA_RELEASE_WEEKDAY = 2"
    by (simp_all add: date_defs)
  from a b c show ?thesis by blast
qed

theorem weekday_check_first_witness:
  "weekday thursday \<noteq> EIA_RELEASE_WEEKDAY
   \<and> run_script thursday END_DATE COMPOSITE_INTERVAL_DAYS all_regions_backend
       = Some ([], Inl ValueError)
   \<and> weekday START_DATE = EIA_RELEASE_WEEKDAY
   \<and> run_script START_DATE END_DATE COMPOSITE_INTERVAL_DAYS all_regions_backend
       \<noteq> Some ([], Inl ValueError)"
proof -
  have thu: "weekday thursday \<noteq> EIA_RELEASE_WEEKDAY"
    by (simp add: date_defs)
  from weekday_check_first [of thursday END_DATE COMPOSITE_INTERVAL_DAYS all_regions_backend] thu
  have "run_script thursday END_DATE COMPOSITE_INTERVAL_DAYS all_regions_backend
          = Some ([], Inl ValueError)"
    by blast
  moreover
  from weekday_check_first [of START_DATE END_DATE COMPOSITE_INTERVAL_DAYS all_regions_backend]
  have "weekday START_DATE = EIA_RELEASE_WEEKDAY"
    and "run_script START_DATE END_DATE COMPOSITE_INTERVAL_DAYS all_regions_backend
          \<noteq> Some ([], Inl ValueError)"
    by blast+
  ultimately show ?thesis using thu by blast
qed

section \<open>Properties of the region fetch\<close>

subsection \<open>The retry loop\<close>

lemma fetch_loop_step:
  "fetch_loop lib respond loc bbox mx (i # rest) events =
     (case run_attempt lib loc (respond i (server_of i)) of
        Returned features \<Rightarrow> (events @ attempt_events bbox i @ [Sleep 2], Inr features)
      | Escaped e \<Rightarrow> (events @ attempt_events bbox i, Inl e)
      | Caught \<Rightarrow>
          if int i = mx - 1 then (events @ attempt_events bbox i, Inr [])
          else fetch_loop lib respond loc bbox mx rest (events @ attempt_events bbox i))"
  by (simp add: Let_def attempt_events_def server_of_def split: attempt_result.splits)

lemma fetch_loop_trace:
  "\<exists>m tail. m \<le> length attempts \<and> (tail = [] \<or> tail = [Sleep 2]) \<and>
     fst (fetch_loop lib respond loc bbox mx attempts events)
       = events @ concat (map (attempt_events bbox) (take m attempts)) @ tail"
proof (induction attempts arbitrary: events)
  case Nil
  show ?case by simp
next
  case (Cons i rest)
  show ?case
  proof (cases "run_attempt lib loc (respond i (server_of i))")
    case (Returned fs)
    have "fst (fetch_loop lib respond loc bbox mx (i # rest) events)
            = events @ concat (map (attempt_events bbox) (take 1 (i # rest))) @ [Sleep 2]"
      using Returned by (simp add: fetch_loop_step del: fetch_loop.simps)
    then show ?thesis by (intro exI [of _ 1] exI [of _ "[Sleep 2]"]) simp
  next
    case (Escaped e)
    have "fst (fetch_loop lib respond loc bbox mx (i # rest) events)
            = events @ concat (map (attempt_events bbox) (take 1 (i # rest))) @ []"
      using Escaped by (simp add: fetch_loop_step del: fetch_loop.simps)
    then show ?thesis by (intro exI [of _ 1] exI [of _ "[]"]) simp
  next
    case Caught
    show ?thesis
    proof (cases "int i = mx - 1")
      case True
      have "fst (fetch_loop lib respond loc bbox mx (i # rest) events)
            = events @ concat (map (attempt_events bbox) (take 1 (i # rest))) @ []"
        using Caught True by (simp add: fetch_loop_step del: fetch_loop.simps)
      then show ?thesis by (intro exI [of _ 1] exI [of _ "[]"]) simp
    next
      case False
      from Cons.IH [of "events @ attempt_events bbox i"]
      obtain m tail where m: "m \<le> length rest" "tail = [] \<or> tail = [Sleep 2]"
        "fst (fetch_loop lib respond loc bbox mx rest (events @ attempt_events bbox i))
           = (events @ attempt_events bbox i) @ concat (map (attempt_events bbox) (take m rest)) @ tail"
        by blast
      have "fst (fetch_loop lib respond loc bbox mx (i # rest) events)
            = events @ concat (map (attempt_events bbox) (take (Suc m) (i # rest))) @ tail"
        using Caught False m(3) by (simp add: fetch_loop_step del: fetch_loop.simps)
      with m(1,2) show ?thesis by (intro exI [of _ "Suc m"] exI [of _ tail]) simp
    qed
  qed
qed

lemma posts_of_attempts:
  "length (filter is_post (concat (map (attempt_events bbox) xs))) = length xs"
  by (induction xs) (auto simp: attempt_events_def is_post_def)

lemma fetch_loop_all_caught:
  "n = nat mx - a \<Longrightarrow>
   (\<forall>i. a \<le> i \<and> i < nat mx \<longrightarrow> run_attempt lib loc (respond i (server_of i)) = Caught) \<Longrightarrow>
   fetch_loop lib respond loc bbox mx [a..<nat mx] events
     = (events @ concat (map (attempt_events bbox) [a..<nat mx]), Inr [])"
proof (induction n arbitrary: a events)
  case 0
  then show ?case by simp
next
  case (Suc n)
  then have lt: "a < nat mx" by simp
  then have upt: "[a..<nat mx] = a # [Suc a..<nat mx]" by (simp add: upt_rec)
  have c: "run_attempt lib loc (respond a (server_of a)) = Caught" using Suc.prems(2) lt by simp
  show ?case
  proof (cases "int a = mx - 1")
    case True
    then have "[Suc a..<nat mx] = []" by simp
    with c True show ?thesis unfolding upt by (simp add: fetch_loop_step del: fetch_loop.simps)
  next
    case False
    have "fetch_loop lib respond loc bbox mx [Suc a..<nat mx] (events @ attempt_events bbox a)
     = ((events @ attempt_events bbox a) @ concat (map (attempt_events bbox) [Suc a..<nat mx]), Inr [])"
      using Suc.prems by (intro Suc.IH) auto
    with c False show ?thesis unfolding upt by (simp add: fetch_loop_step del: fetch_loop.simps)
  qed
qed

lemma fetch_loop_returned:
  "n = k - a \<Longrightarrow> a \<le> k \<Longrightarrow> k < nat mx \<Longrightarrow>
   (\<forall>i. a \<le> i \<and> i < k \<longrightarrow> run_attempt lib loc (respond i (server_of i)) = Caught) \<Longrightarrow>
   run_attempt lib loc (respond k (server_of k)) = Returned fs \<Longrightarrow>
   fetch_loop lib respond loc bbox mx [a..<nat mx] events
     = (events @ concat (map (attempt_events bbox) [a..<Suc k]) @ [Sleep 2], Inr fs)"
proof (induction n arbitrary: a events)
  case 0
  then have ak: "a = k" by simp
  then have upt: "[a..<nat mx] = k # [Suc k..<nat mx]" using 0 by (simp add: upt_rec)
  show ?case unfolding upt using 0(5) ak by (simp add: fetch_loop_step del: fetch_loop.simps)
next
  case (Suc n)
  then have lt: "a < k" by simp
  then have upt: "[a..<nat mx] = a # [Suc a..<nat mx]" using Suc.prems by (simp add: upt_rec)
  have upt2: "[a..<Suc k] = a # [Suc a..<Suc k]" using lt by (simp add: upt_rec)
  have c: "run_attempt lib loc (respond a (server_of a)) = Caught" using Suc.prems(4) lt by simp
  have ne: "int a \<noteq> mx - 1" using lt Suc.prems(3) by linarith
  have "fetch_loop lib respond loc bbox mx [Suc a..<nat mx] (events @ attempt_events bbox a)
     = ((events @ attempt_events bbox a) @ concat (map (attempt_events bbox) [Suc a..<Suc k]) @ [Sleep 2], Inr fs)"
    using Suc.prems lt by (intro Suc.IH) auto
  with c ne show ?case unfolding upt upt2 by (simp add: fetch_loop_step del: fetch_loop.simps)
qed

subsection \<open>Rings and the exact library\<close>

lemma cross2_self: "cross2 A A = 0"
  by (simp add: cross2_def)

lemma shoelace_two_points:
  "set xs \<subseteq> {A, B} \<Longrightarrow> xs \<noteq> [] \<Longrightarrow>
   shoelace xs = (if hd xs = last xs then 0 else if hd xs = A then cross2 A B else cross2 B A)"
proof (induction xs)
  case Nil
  then show ?case by simp
next
  case (Cons p rest)
  note IH = Cons.IH and prems = Cons.prems
  show ?case
  proof (cases rest)
    case Nil
    then show ?thesis by simp
  next
    case (Cons q ps)
    define L where "L = last (q # ps)"
    from prems Cons have sub: "set (q # ps) \<subseteq> {A, B}"
      by simp
    have "shoelace (q # ps)
            = (if hd (q # ps) = last (q # ps) then 0
               else if hd (q # ps) = A then cross2 A B else cross2 B A)"
      using IH sub unfolding Cons by blast
    then have IH': "shoelace (q # ps)
        = (if q = L then 0 else if q = A then cross2 A B else cross2 B A)"
      by (simp add: L_def)
    have "L \<in> set (q # ps)"
      unfolding L_def by (rule last_in_set) simp
    with sub have "L \<in> {A, B}"
      by auto
    with prems Cons have pq: "p = A \<or> p = B" "q = A \<or> q = B" "L = A \<or> L = B"
      by auto
    have "shoelace (p # q # ps) = cross2 p q + shoelace (q # ps)"
      by simp
    also have "\<dots> = (if p = L then 0 else if p = A then cross2 A B else cross2 B A)"
    proof -
      have z: "cross2 A B + cross2 B A = 0" "cross2 B A + cross2 A B = 0"
        by (simp_all add: cross2_def)
      show ?thesis unfolding IH' using pq z by (auto simp: cross2_self)
    qed
    finally have "shoelace (p # q # ps)
        = (if p = L then 0 else if p = A then cross2 A B else cross2 B A)" .
    then show ?thesis unfolding Cons by (simp add: L_def)
  qed
qed

lemma closed_two_points_flat:
  "set xs \<subseteq> {A, B} \<Longrightarrow> xs \<noteq> [] \<Longrightarrow> hd xs = last xs \<Longrightarrow> shoelace xs = 0"
  using shoelace_two_points [of xs A B] by simp

lemma few_points:
  assumes "card (set xs) < 3"
  shows "\<exists>A B. set xs \<subseteq> {A, B}"
proof -
  have "card (set xs) = 0 \<or> card (set xs) = 1 \<or> card (set xs) = 2" using assms by linarith
  then show ?thesis
  proof (elim disjE)
    assume "card (set xs) = 0" then show ?thesis by simp
  next
    assume "card (set xs) = 1"
    then obtain a where "set xs = {a}" by (auto simp: card_1_singleton_iff)
    then show ?thesis by blast
  next
    assume "card (set xs) = 2"
    then obtain a b where "set xs = {a, b}" by (auto simp: card_2_iff)
    then show ?thesis by blast
  qed
qed

lemma exact_is_valid:
  "is_valid exact_shapely ring =
     (4 \<le> length (remdups_adj ring) \<and> hd (remdups_adj ring) = last (remdups_adj ring)
      \<and> ring_simple (remdups_adj ring))"
  by (simp add: exact_shapely_def Let_def)

lemma exact_area: "area exact_shapely ring = ring_area ring"
  by (simp add: exact_shapely_def)

lemma exact_Polygon:
  "Polygon exact_shapely cs =
     (if length cs < 3 then Inl ValueError
      else if length cs = 3 \<or> hd cs \<noteq> last cs then Inr (cs @ [hd cs]) else Inr cs)"
  by (simp add: exact_shapely_def)

lemma validate_ring_accept_iff:
  "(validate_ring lib coords = Inr (Some poly))
     = (3 \<le> length coords \<and> Polygon lib (close_ring coords) = Inr poly
        \<and> is_valid lib poly \<and> 0 < area lib poly)"
  by (auto simp: validate_ring_def split: sum.splits)

lemma validate_ring_raise_iff:
  "(validate_ring lib coords = Inl e)
     = (3 \<le> length coords \<and> Polygon lib (close_ring coords) = Inl e \<and> \<not> is_Exception e)"
  by (auto simp: validate_ring_def split: sum.splits)

lemma validate_ring_drop_iff:
  "(validate_ring lib coords = Inr None)
     = (length coords < 3
        \<or> (\<exists>e. Polygon lib (close_ring coords) = Inl e \<and> is_Exception e)
        \<or> (\<exists>poly. Polygon lib (close_ring coords) = Inr poly
              \<and> (\<not> is_valid lib poly \<or> area lib poly \<le> 0)))"
  by (auto simp: validate_ring_def split: sum.splits)

lemma shoelace_snoc: "xs \<noteq> [] \<Longrightarrow> shoelace (xs @ [y]) = shoelace xs + cross2 (last xs) y"
proof (induction xs)
  case Nil
  then show ?case by simp
next
  case (Cons x rest)
  show ?case
  proof (cases rest)
    case Nil
    then show ?thesis by simp
  next
    case (Cons q ps)
    have "shoelace (rest @ [y]) = shoelace rest + cross2 (last rest) y"
      using Cons.IH Cons by simp
    then show ?thesis unfolding Cons by simp
  qed
qed

lemma remdups_adj_snoc_last:
  "xs \<noteq> [] \<Longrightarrow> remdups_adj (xs @ [last xs]) = remdups_adj xs"
proof (induction xs rule: rev_induct)
  case Nil
  then show ?case by simp
next
  case (snoc x xs)
  show ?case by (simp add: remdups_adj_append_two)
qed

lemma close_ring_props:
  assumes "coords \<noteq> []"
  shows "set (close_ring coords) = set coords" and "close_ring coords \<noteq> []"
    and "hd (close_ring coords) = last (close_ring coords)"
    and "length coords \<le> length (close_ring coords)"
proof -
  have "hd coords \<in> set coords" using assms by simp
  then show "set (close_ring coords) = set coords"
    by (cases "hd coords = last coords") (auto simp add: close_ring_def)
  show "close_ring coords \<noteq> []"
    using assms by (cases "hd coords = last coords") (simp_all add: close_ring_def)
  show "hd (close_ring coords) = last (close_ring coords)"
    using assms by (cases "hd coords = last coords") (simp_all add: close_ring_def)
  show "length coords \<le> length (close_ring coords)"
    by (simp add: close_ring_def)
qed

text \<open>The polygon of the exact library has the ring of the closed coordinates, up to a
  repeated last point.\<close>

lemma exact_polygon_ring:
  assumes "3 \<le> length coords"
  shows "\<exists>ring. Polygon exact_shapely (close_ring coords) = Inr ring
           \<and> remdups_adj ring = remdups_adj (close_ring coords)
           \<and> shoelace ring = shoelace (close_ring coords)
           \<and> set ring = set coords"
proof -
  from assms have ne: "coords \<noteq> []" by auto
  define cs where "cs = close_ring coords"
  have c: "set cs = set coords" "cs \<noteq> []" "hd cs = last cs" "3 \<le> length cs"
    using close_ring_props [OF ne] assms by (simp_all add: cs_def)
  have h: "hd cs \<in> set cs" using c(2) by simp
  have a: "remdups_adj (cs @ [hd cs]) = remdups_adj cs"
    using remdups_adj_snoc_last [OF c(2)] c(3) by simp
  have b: "shoelace (cs @ [hd cs]) = shoelace cs"
    using shoelace_snoc [OF c(2), of "hd cs"] c(3) by (simp add: cross2_def)
  have s: "set (cs @ [hd cs]) = set coords"
    using h c(1) by (simp add: insert_absorb)
  have "Polygon exact_shapely cs = Inr cs \<or> Polygon exact_shapely cs = Inr (cs @ [hd cs])"
    using c(4) by (simp add: exact_Polygon)
  then show ?thesis
  proof
    assume "Polygon exact_shapely cs = Inr cs"
    then show ?thesis using c(1) unfolding cs_def by simp
  next
    assume "Polygon exact_shapely cs = Inr (cs @ [hd cs])"
    then show ?thesis using a b s unfolding cs_def by simp
  qed
qed

lemma exact_validate:
  assumes "3 \<le> length coords"
  shows "validate_ring exact_shapely coords = Inr None
         \<or> (\<exists>ring. validate_ring exact_shapely coords = Inr (Some ring)
               \<and> ring_simple (remdups_adj (close_ring coords))
               \<and> 0 < \<bar>shoelace (close_ring coords)\<bar>
               \<and> set ring = set coords \<and> shoelace ring = shoelace (close_ring coords))"
proof -
  from exact_polygon_ring [OF assms] obtain ring where
    r: "Polygon exact_shapely (close_ring coords) = Inr ring"
      "remdups_adj ring = remdups_adj (close_ring coords)"
      "shoelace ring = shoelace (close_ring coords)" "set ring = set coords"
    by blast
  show ?thesis
  proof (cases "is_valid exact_shapely ring \<and> 0 < area exact_shapely ring")
    case True
    then have "validate_ring exact_shapely coords = Inr (Some ring)"
      using assms r(1) by (simp add: validate_ring_def)
    moreover from True have "ring_simple (remdups_adj (close_ring coords))"
      by (simp add: exact_is_valid r(2))
    moreover from True have "0 < \<bar>shoelace (close_ring coords)\<bar>"
      by (simp add: exact_area ring_area_def r(3))
    ultimately show ?thesis using r(3,4) by blast
  next
    case False
    then have "validate_ring exact_shapely coords = Inr None"
      using assms r(1) by (auto simp: validate_ring_def)
    then show ?thesis by simp
  qed
qed

lemma validate_short: "length coords < 3 \<Longrightarrow> validate_ring lib coords = Inr None"
  by (simp add: validate_ring_def)

lemma crossing_not_simple:
  assumes "crossing_edges ring"
  shows "\<not> ring_simple ring"
proof
  assume simple: "ring_simple ring"
  define es where "es = ring_edges ring"
  from assms obtain i j where ij: "i < length es" "i + 2 \<le> j" "j < length es"
    "\<not> (i = 0 \<and> j + 1 = length es)"
    "case (es ! i, es ! j) of ((a, b), (c, d)) \<Rightarrow> segments_meet a b c d"
    unfolding crossing_edges_def Let_def list_ex_iff es_def by auto
  from simple ij(1,2,3) have ok: "edge_pair_ok es i j"
    unfolding ring_simple_def Let_def list_all_iff es_def by auto
  obtain a b c d where e: "es ! i = (a, b)" "es ! j = (c, d)"
    by (metis surj_pair)
  from ij(2) have "j \<noteq> i + 1" by simp
  with ok ij(4) e have "\<not> segments_meet a b c d"
    by (simp add: edge_pair_ok_def)
  with ij(5) e show False by simp
qed

lemma exact_rejects_crossing:
  assumes "crossing_edges (remdups_adj (close_ring coords))"
  shows "validate_ring exact_shapely coords = Inr None"
proof (cases "length coords < 3")
  case True
  then show ?thesis by (rule validate_short)
next
  case False
  then have "3 \<le> length coords" by simp
  from exact_validate [OF this] crossing_not_simple [OF assms] show ?thesis by blast
qed

lemma exact_rejects_flat:
  assumes "shoelace (close_ring coords) = 0"
  shows "validate_ring exact_shapely coords = Inr None"
proof (cases "length coords < 3")
  case True
  then show ?thesis by (rule validate_short)
next
  case False
  then have "3 \<le> length coords" by simp
  from exact_validate [OF this] assms show ?thesis by auto
qed

lemma exact_rejects_few_points:
  assumes "card (set coords) < 3"
  shows "validate_ring exact_shapely coords = Inr None"
proof (cases "length coords < 3")
  case True
  then show ?thesis by (rule validate_short)
next
  case False
  then have len: "3 \<le> length coords" by simp
  then have ne: "coords \<noteq> []" by auto
  from assms obtain A B where "set coords \<subseteq> {A, B}" using few_points by blast
  then have "set (close_ring coords) \<subseteq> {A, B}"
    using close_ring_props(1) [OF ne] by simp
  then have "shoelace (close_ring coords) = 0"
    using close_ring_props(2,3) [OF ne] by (intro closed_two_points_flat)
  then show ?thesis by (rule exact_rejects_flat)
qed

lemma orient_turn: "orient p q r = sgn (turn p q r)"
  by (simp add: orient_def turn_def)

lemma turn_rotate: "turn q r p = turn p q r"
  by (simp add: turn_def algebra_simps)

lemma orient_rotate: "orient q r p = orient p q r"
  by (simp add: orient_turn turn_rotate)

lemma on_segment_orient: "on_segment p q r \<Longrightarrow> orient p q r = 0"
  by (simp add: on_segment_def)

lemma ring_simple_quad:
  "ring_simple [a, b, c, d, a] =
     (\<not> on_segment a b c \<and> \<not> on_segment b c a
      \<and> \<not> segments_meet a b c d
      \<and> \<not> on_segment a b d \<and> \<not> on_segment d a b
      \<and> \<not> on_segment b c d \<and> \<not> on_segment c d b
      \<and> \<not> segments_meet b c d a
      \<and> \<not> on_segment c d a \<and> \<not> on_segment d a c)"
proof -
  have u: "[0..<4] = [0, 1, 2, 3]" "[1..<4] = [1, 2, 3]" "[2..<4] = [2, 3]" "[3..<4] = [3]"
    "[4..<4] = []"
    by (simp_all add: upt_rec)
  show ?thesis
    by (simp add: ring_simple_def ring_edges_def edge_pair_ok_def u Let_def)
qed

lemma convex_quad_simple:
  assumes "convex_quad a b c d"
  shows "ring_simple [a, b, c, d, a]"
proof -
  define s where "s = orient a b c"
  from assms have s: "s \<noteq> 0" "orient a b c = s" "orient b c d = s" "orient c d a = s"
    "orient d a b = s"
    by (simp_all add: convex_quad_def s_def)
  have r: "orient b c a = s" "orient a b d = s" "orient c d b = s" "orient d a c = s"
    using s orient_rotate [of b c a] orient_rotate [of a b d] orient_rotate [of c d b]
      orient_rotate [of d a c] orient_rotate [of a b c] orient_rotate [of d a b]
      orient_rotate [of b c d] orient_rotate [of c d a]
    by simp_all
  have n: "\<not> on_segment a b c" "\<not> on_segment b c a" "\<not> on_segment a b d" "\<not> on_segment d a b"
    "\<not> on_segment b c d" "\<not> on_segment c d b" "\<not> on_segment c d a" "\<not> on_segment d a c"
    using s r on_segment_orient by metis+
  have m: "\<not> segments_meet a b c d" "\<not> segments_meet b c d a"
    using n s r by (simp_all add: segments_meet_def)
  from n m show ?thesis by (simp add: ring_simple_quad)
qed

lemma turn_zero_eq: "turn p p r = 0" "turn p q p = 0" "turn p q q = 0"
  by (simp_all add: turn_def)

lemma convex_quad_distinct:
  assumes "convex_quad a b c d"
  shows "a \<noteq> b" "b \<noteq> c" "c \<noteq> d" "d \<noteq> a"
proof -
  from assms have s: "orient a b c \<noteq> 0" "orient b c d \<noteq> 0" "orient c d a \<noteq> 0" "orient d a b \<noteq> 0"
    by (simp_all add: convex_quad_def)
  show "a \<noteq> b" using s(1) by (auto simp: orient_turn turn_zero_eq)
  show "b \<noteq> c" using s(2) by (auto simp: orient_turn turn_zero_eq)
  show "c \<noteq> d" using s(3) by (auto simp: orient_turn turn_zero_eq)
  show "d \<noteq> a" using s(4) by (auto simp: orient_turn turn_zero_eq)
qed

lemma shoelace_quad: "shoelace [a, b, c, d, a] = turn a b c + turn c d a"
  by (simp add: cross2_def turn_def algebra_simps)

lemma convex_quad_area:
  assumes "convex_quad a b c d"
  shows "0 < ring_area [a, b, c, d, a]"
proof -
  from assms have e: "sgn (turn c d a) = sgn (turn a b c)" "sgn (turn a b c) \<noteq> 0"
    by (simp_all add: convex_quad_def orient_turn)
  have "turn a b c + turn c d a \<noteq> 0"
  proof (cases "0 < turn a b c")
    case True
    with e have "0 < turn c d a" by (simp add: sgn_if split: if_splits)
    with True show ?thesis by simp
  next
    case False
    with e have "turn a b c < 0" by (simp add: sgn_if split: if_splits)
    moreover with e have "turn c d a < 0" by (simp add: sgn_if split: if_splits)
    ultimately show ?thesis by simp
  qed
  then show ?thesis unfolding ring_area_def shoelace_quad by simp
qed

lemma convex_quad_accepted:
  assumes "convex_quad a b c d"
  shows "validate_ring exact_shapely [a, b, c, d] = Inr (Some [a, b, c, d, a])"
    and "validate_ring exact_shapely [a, b, c, d, a] = Inr (Some [a, b, c, d, a])"
proof -
  note d = convex_quad_distinct [OF assms]
  have r: "remdups_adj [a, b, c, d, a] = [a, b, c, d, a]"
    using d by simp
  have v: "is_valid exact_shapely [a, b, c, d, a]"
    unfolding exact_is_valid r using convex_quad_simple [OF assms] by simp
  have ar: "0 < area exact_shapely [a, b, c, d, a]"
    using convex_quad_area [OF assms] by (simp add: exact_shapely_def)
  have c1: "close_ring [a, b, c, d] = [a, b, c, d, a]"
    using d by (auto simp: close_ring_def)
  have c2: "close_ring [a, b, c, d, a] = [a, b, c, d, a]"
    by (simp add: close_ring_def)
  have p: "Polygon exact_shapely [a, b, c, d, a] = Inr [a, b, c, d, a]"
    by (simp add: exact_shapely_def)
  show "validate_ring exact_shapely [a, b, c, d] = Inr (Some [a, b, c, d, a])"
    using v ar by (simp add: validate_ring_def c1 p)
  show "validate_ring exact_shapely [a, b, c, d, a] = Inr (Some [a, b, c, d, a])"
    using v ar by (simp add: validate_ring_def c2 p)
qed

lemma way_accept:
  "el_type el = Some ''way'' \<Longrightarrow> el_nodes el = Some ns \<Longrightarrow> el_id el = Some i \<Longrightarrow>
   validate_ring lib (way_coords nodes ns) = Inr (Some poly) \<Longrightarrow>
   way_features lib location_name nodes el
     = Inr [\<lparr> geometry = mapping lib poly,
               properties = tank_properties i location_name (el_tags el) \<rparr>]"
  by (simp add: way_features_def)

lemma way_drop:
  "el_nodes el = Some ns \<Longrightarrow> validate_ring lib (way_coords nodes ns) = Inr None \<Longrightarrow>
   way_features lib location_name nodes el = Inr []"
  by (simp add: way_features_def)

lemma way_escape:
  "el_type el = Some ''way'' \<Longrightarrow> el_nodes el = Some ns \<Longrightarrow>
   validate_ring lib (way_coords nodes ns) = Inl e \<Longrightarrow>
   way_features lib location_name nodes el = Inl e"
  by (simp add: way_features_def)

lemma exact_mapping: "mapping exact_shapely ring = ring"
  by (simp add: exact_shapely_def)

lemma example_nodes:
  "build_nodes (case elements example_body of None \<Rightarrow> [] | Some es \<Rightarrow> es) Map.empty
     = Inr [1 \<mapsto> (0, 0), 2 \<mapsto> (1, 0), 3 \<mapsto> (1, 1), 4 \<mapsto> (0, 1), 5 \<mapsto> (2, 2), 6 \<mapsto> (2, 0)]"
  by (simp add: example_body_def node_el_def way_el_def)

lemma example_rings:
  "validate_ring exact_shapely [(0, 0), (1, 0), (1, 1), (0, 1), (0, 0)] = Inr (Some square_closed)"
  "validate_ring exact_shapely [(0, 0), (2, 2), (2, 0), (0, 1)] = Inr None"
  "validate_ring exact_shapely [(0, 0), (1, 0)] = Inr None"
  "validate_ring exact_shapely [(0, 0), (1, 1), (2, 2)] = Inr None"
  by code_simp+

lemma example_body_features:
  "process_body exact_shapely ''Cushing, OK'' example_body = Inr [example_tank]"
  unfolding process_body_def Let_def example_nodes
  by (simp add: example_body_def node_el_def way_el_def way_features_def way_coords_def
        List.map_filter_def example_rings tank_properties_def example_tank_def exact_mapping)

lemma example_body_interrupted:
  "process_body interrupted_shapely ''Cushing, OK'' example_body = Inl KeyboardInterrupt"
  unfolding process_body_def Let_def example_nodes
  by (simp add: example_body_def node_el_def way_el_def way_features_def way_coords_def
        List.map_filter_def validate_ring_def interrupted_shapely_def is_Exception_def)

lemma example_body_raising:
  "process_body raising_shapely ''Cushing, OK'' example_body = Inr []"
  unfolding process_body_def Let_def example_nodes
  by (simp add: example_body_def node_el_def way_el_def way_features_def way_coords_def
        List.map_filter_def validate_ring_def raising_shapely_def is_Exception_def)

subsection \<open>Claims about the region fetch\<close>

text \<open>
  C4. For every geometry library, a candidate ring is accepted exactly when it has at
  least three coordinates, the constructor returns a polygon for the closed ring, and
  that polygon passes the validity test and has an area above zero. A way whose ring is
  accepted adds one feature, with the geometry of the polygon and the id of the way; a
  way whose ring is rejected adds none. A rejection raises nothing: an exception of the
  constructor is swallowed, and validation raises only what \<open>except Exception\<close> does
  not catch. With the exact library, rings with fewer than three distinct points,
  rings with crossing edges and rings of area zero are rejected, and every convex
  quadrilateral, open or closed, is accepted. In the example body the square becomes
  the one tank of the result, and the bow tie, the short way and the flat way are
  dropped without an error; with a constructor that raises, nothing is kept and nothing
  is raised.
\<close>

theorem ring_validation:
  "(validate_ring lib coords = Inr (Some poly))
     = (3 \<le> length coords \<and> Polygon lib (close_ring coords) = Inr poly
        \<and> is_valid lib poly \<and> 0 < area lib poly)
   \<and> (validate_ring lib coords = Inl e)
     = (3 \<le> length coords \<and> Polygon lib (close_ring coords) = Inl e \<and> \<not> is_Exception e)
   \<and> (Polygon lib (close_ring coords) = Inl e \<and> is_Exception e \<longrightarrow>
        validate_ring lib coords = Inr None)
   \<and> (el_type el = Some ''way'' \<and> el_nodes el = Some ns \<and> el_id el = Some i
       \<and> validate_ring lib (way_coords nodes ns) = Inr (Some poly) \<longrightarrow>
        way_features lib location_name nodes el
          = Inr [\<lparr> geometry = mapping lib poly,
                    properties = tank_properties i location_name (el_tags el) \<rparr>])
   \<and> (el_nodes el = Some ns \<and> validate_ring lib (way_coords nodes ns) = Inr None \<longrightarrow>
        way_features lib location_name nodes el = Inr [])
   \<and> (card (set ring) < 3 \<longrightarrow> validate_ring exact_shapely ring = Inr None)
   \<and> (crossing_edges (remdups_adj (close_ring ring)) \<longrightarrow>
        validate_ring exact_shapely ring = Inr None)
   \<and> (shoelace (close_ring ring) = 0 \<longrightarrow> validate_ring exact_shapely ring = Inr None)
   \<and> (convex_quad a b c d \<longrightarrow>
        validate_ring exact_shapely [a, b, c, d] = Inr (Some [a, b, c, d, a])
        \<and> validate_ring exact_shapely [a, b, c, d, a] = Inr (Some [a, b, c, d, a]))
   \<and> process_body exact_shapely ''Cushing, OK'' example_body = Inr [example_tank]
   \<and> process_body raising_shapely ''Cushing, OK'' example_body = Inr []"
proof -
  have c1: "(validate_ring lib coords = Inr (Some poly))
     = (3 \<le> length coords \<and> Polygon lib (close_ring coords) = Inr poly
        \<and> is_valid lib poly \<and> 0 < area lib poly)"
    by (rule validate_ring_accept_iff)
  have c2: "(validate_ring lib coords = Inl e)
     = (3 \<le> length coords \<and> Polygon lib (close_ring coords) = Inl e \<and> \<not> is_Exception e)"
    by (rule validate_ring_raise_iff)
  have c3: "Polygon lib (close_ring coords) = Inl e \<and> is_Exception e \<longrightarrow>
        validate_ring lib coords = Inr None"
    by (simp add: validate_ring_def)
  have c4: "el_type el = Some ''way'' \<and> el_nodes el = Some ns \<and> el_id el = Some i
       \<and> validate_ring lib (way_coords nodes ns) = Inr (Some poly) \<longrightarrow>
        way_features lib location_name nodes el
          = Inr [\<lparr> geometry = mapping lib poly,
                    properties = tank_properties i location_name (el_tags el) \<rparr>]"
    by (simp add: way_features_def)
  have c5: "el_nodes el = Some ns \<and> validate_ring lib (way_coords nodes ns) = Inr None \<longrightarrow>
        way_features lib location_name nodes el = Inr []"
    by (simp add: way_features_def)
  have c6: "card (set ring) < 3 \<longrightarrow> validate_ring exact_shapely ring = Inr None"
    by (simp add: exact_rejects_few_points)
  have c7: "crossing_edges (remdups_adj (close_ring ring)) \<longrightarrow>
        validate_ring exact_shapely ring = Inr None"
    by (simp add: exact_rejects_crossing)
  have c8: "shoelace (close_ring ring) = 0 \<longrightarrow> validate_ring exact_shapely ring = Inr None"
    by (simp add: exact_rejects_flat)
  have c9: "convex_quad a b c d \<longrightarrow>
        validate_ring exact_shapely [a, b, c, d] = Inr (Some [a, b, c, d, a])
        \<and> validate_ring exact_shapely [a, b, c, d, a] = Inr (Some [a, b, c, d, a])"
    by (simp add: convex_quad_accepted)
  show ?thesis
    by (intro conjI c1 c2 c3 c4 c5 c6 c7 c8 c9 example_body_features example_body_raising)
qed

theorem ring_validation_witness:
  "convex_quad (0, 0) (1, 0) (1, 1) (0, 1)
   \<and> validate_ring exact_shapely square_open = Inr (Some square_closed)
   \<and> way_features exact_shapely ''Cushing, OK'' square_nodes (way_el 100 [1, 2, 3, 4] None)
       = Inr [\<lparr> geometry = square_closed,
                 properties = tank_properties 100 ''Cushing, OK'' None \<rparr>]
   \<and> card (set two_point_ring) < 3
   \<and> validate_ring exact_shapely two_point_ring = Inr None
   \<and> crossing_edges (remdups_adj (close_ring bow_tie))
   \<and> validate_ring exact_shapely bow_tie = Inr None"
proof -
  note rv = ring_validation [where lib = exact_shapely
      and el = "way_el 100 [1, 2, 3, 4] None" and ns = "[1, 2, 3, 4]" and i = 100
      and nodes = square_nodes and poly = square_closed and location_name = "''Cushing, OK''"
      and a = "(0, 0)" and b = "(1, 0)" and c = "(1, 1)" and d = "(0, 1)"]
  note rest3 = rv [THEN conjunct2, THEN conjunct2, THEN conjunct2]
  note way_rule = rest3 [THEN conjunct1]
  note rest5 = rest3 [THEN conjunct2, THEN conjunct2]
  note quad_rule = rest5 [THEN conjunct2, THEN conjunct2, THEN conjunct2, THEN conjunct1]
  have cq: "convex_quad (0, 0) (1, 0) (1, 1) (0, 1)"
    by (simp add: convex_quad_def orient_def)
  from quad_rule [rule_format, OF cq]
  have "validate_ring exact_shapely [(0, 0), (1, 0), (1, 1), (0, 1)]
          = Inr (Some [(0, 0), (1, 0), (1, 1), (0, 1), (0, 0)])"
    by (rule conjunct1)
  then have v: "validate_ring exact_shapely square_open = Inr (Some square_closed)"
    by (simp only: square_open_def square_closed_def)
  have wc: "way_coords square_nodes [1, 2, 3, 4] = square_open"
    by (simp add: way_coords_def List.map_filter_def square_nodes_def square_open_def)
  have w: "el_type (way_el 100 [1, 2, 3, 4] None) = Some ''way''
       \<and> el_nodes (way_el 100 [1, 2, 3, 4] None) = Some [1, 2, 3, 4]
       \<and> el_id (way_el 100 [1, 2, 3, 4] None) = Some 100
       \<and> validate_ring exact_shapely (way_coords square_nodes [1, 2, 3, 4])
             = Inr (Some square_closed)"
    unfolding wc using v by (simp add: way_el_def)
  have tg: "el_tags (way_el 100 [1, 2, 3, 4] None) = None"
    by (simp add: way_el_def)
  from way_rule [rule_format, OF w]
  have f: "way_features exact_shapely ''Cushing, OK'' square_nodes (way_el 100 [1, 2, 3, 4] None)
       = Inr [\<lparr> geometry = square_closed,
                 properties = tank_properties 100 ''Cushing, OK'' None \<rparr>]"
    by (simp only: exact_mapping tg)
  have t: "card (set two_point_ring) < 3"
    by code_simp
  note two = ring_validation [where ring = two_point_ring]
  have tr: "validate_ring exact_shapely two_point_ring = Inr None"
    by (rule two [THEN conjunct2, THEN conjunct2, THEN conjunct2, THEN conjunct2,
          THEN conjunct2, THEN conjunct1, rule_format, OF t])
  have b: "crossing_edges (remdups_adj (close_ring bow_tie))"
    by code_simp
  note bow = ring_validation [where ring = bow_tie]
  have br: "validate_ring exact_shapely bow_tie = Inr None"
    by (rule bow [THEN conjunct2, THEN conjunct2, THEN conjunct2, THEN conjunct2,
          THEN conjunct2, THEN conjunct2, THEN conjunct1, rule_format, OF b])
  show ?thesis
    by (intro conjI cq v f t tr b br)
qed

text \<open>
  C5. A fetch makes \<open>k\<close> attempts for some \<open>k\<close> of at most \<open>max_retries\<close>: its
  events are those of the attempts \<open>0, \<dots>, k - 1\<close> in order, followed by the two
  seconds of sleep after a success, and it posts \<open>k\<close> times. Attempt \<open>i\<close> posts to
  the server at index \<open>i mod 3\<close> of the server list, after a sleep of \<open>5 * i\<close>
  seconds when \<open>i > 0\<close> and with no sleep when \<open>i = 0\<close>.
\<close>

theorem fetch_round_robin:
  "\<exists>k tail. k \<le> nat max_retries \<and> (tail = [] \<or> tail = [Sleep 2])
      \<and> fst (fetch_tanks lib respond location_name bbox max_retries)
            = concat (map (attempt_events bbox) [0..<k]) @ tail
      \<and> length (filter is_post (fst (fetch_tanks lib respond location_name bbox max_retries))) = k
      \<and> attempt_events bbox 0 = [Post (OVERPASS_SERVERS ! 0) (build_query bbox)]
      \<and> attempt_events bbox (Suc i)
            = [Sleep (5 * Suc i),
               Post (OVERPASS_SERVERS ! (Suc i mod length OVERPASS_SERVERS)) (build_query bbox)]"
proof -
  from fetch_loop_trace [where lib = lib and respond = respond and loc = location_name
      and bbox = bbox and mx = max_retries and attempts = "[0..<nat max_retries]"
      and events = "[]"]
  obtain m tail where raw: "m \<le> length [0..<nat max_retries]"
    "tail = [] \<or> tail = [Sleep 2]"
    "fst (fetch_loop lib respond location_name bbox max_retries [0..<nat max_retries] [])
       = [] @ concat (map (attempt_events bbox) (take m [0..<nat max_retries])) @ tail"
    by blast
  have m: "m \<le> nat max_retries" "tail = [] \<or> tail = [Sleep 2]"
    "fst (fetch_tanks lib respond location_name bbox max_retries)
       = concat (map (attempt_events bbox) (take m [0..<nat max_retries])) @ tail"
    using raw by (simp_all add: fetch_tanks_def)
  have t: "take m [0..<nat max_retries] = [0..<m]"
    using m(1) by (simp add: take_upt)
  have "length (filter is_post (concat (map (attempt_events bbox) [0..<m]) @ tail)) = m"
    using m(2) by (auto simp: posts_of_attempts is_post_def)
  then have p: "length (filter is_post (fst (fetch_tanks lib respond location_name bbox max_retries))) = m"
    by (simp only: m(3) t)
  have e: "attempt_events bbox 0 = [Post (OVERPASS_SERVERS ! 0) (build_query bbox)]"
    "attempt_events bbox (Suc i)
            = [Sleep (5 * Suc i),
               Post (OVERPASS_SERVERS ! (Suc i mod length OVERPASS_SERVERS)) (build_query bbox)]"
    by (simp_all add: attempt_events_def server_of_def)
  from m(1,2) m(3) [unfolded t] p e show ?thesis by blast
qed

text \<open>
  C6. When every attempt fails with a timeout, a network error or an undecodable body,
  the fetch makes all \<open>max_retries\<close> attempts, the same way whichever of the three
  each failure is, and returns the empty list; it raises nothing.
\<close>

theorem fetch_all_fail_empty:
  "(\<forall>i < nat max_retries.
      respond i (server_of i) = Timeout \<or> respond i (server_of i) = RequestException
      \<or> respond i (server_of i) = JSONDecodeError) \<Longrightarrow>
   fetch_tanks lib respond location_name bbox max_retries
     = (concat (map (attempt_events bbox) [0..<nat max_retries]), Inr [])"
proof -
  assume a: "\<forall>i < nat max_retries.
      respond i (server_of i) = Timeout \<or> respond i (server_of i) = RequestException
      \<or> respond i (server_of i) = JSONDecodeError"
  have c: "\<forall>i. 0 \<le> i \<and> i < nat max_retries \<longrightarrow>
          run_attempt lib location_name (respond i (server_of i)) = Caught"
    using a by (auto simp: run_attempt_def)
  have "fetch_loop lib respond location_name bbox max_retries [0..<nat max_retries] []
          = ([] @ concat (map (attempt_events bbox) [0..<nat max_retries]), Inr [])"
    by (rule fetch_loop_all_caught [where n = "nat max_retries" and a = 0]) (simp_all add: c)
  then show ?thesis by (simp add: fetch_tanks_def)
qed

theorem fetch_all_fail_empty_witness:
  "fetch_tanks exact_shapely three_failures ''Cushing, OK'' ''35.95,-97.45,36.15,-96.95'' 3
     = ([Post (OVERPASS_SERVERS ! 0) (build_query ''35.95,-97.45,36.15,-96.95''),
         Sleep 5,
         Post (OVERPASS_SERVERS ! 1) (build_query ''35.95,-97.45,36.15,-96.95''),
         Sleep 10,
         Post (OVERPASS_SERVERS ! 2) (build_query ''35.95,-97.45,36.15,-96.95'')],
        Inr [])"
proof -
  have h: "\<forall>i < nat 3.
      three_failures i (server_of i) = Timeout
      \<or> three_failures i (server_of i) = RequestException
      \<or> three_failures i (server_of i) = JSONDecodeError"
    by (simp add: three_failures_def)
  have u: "[0..<nat 3] = [0, 1, 2]"
    by (simp add: upt_rec)
  have l: "length OVERPASS_SERVERS = 3"
    by (simp add: OVERPASS_SERVERS_def)
  from fetch_all_fail_empty [where max_retries = 3 and respond = three_failures
      and lib = exact_shapely and location_name = "''Cushing, OK''"
      and bbox = "''35.95,-97.45,36.15,-96.95''", OF h]
  show ?thesis
    unfolding u by (simp add: attempt_events_def server_of_def l)
qed

text \<open>
  C10. When every attempt fails, the fetch returns the empty list; when an attempt
  succeeds after failures and its body holds no valid tank polygon, the fetch returns
  the empty list too. The value returned is the same in both cases.
\<close>

theorem fetch_empty_ambiguous:
  "((\<forall>i < nat max_retries.
       run_attempt lib location_name (respond i (server_of i)) = Caught) \<longrightarrow>
      snd (fetch_tanks lib respond location_name bbox max_retries) = Inr [])
   \<and> (k < nat max_retries
       \<and> (\<forall>i < k. run_attempt lib location_name (respond i (server_of i)) = Caught)
       \<and> respond k (server_of k) = Body data
       \<and> process_body lib location_name data = Inr [] \<longrightarrow>
      snd (fetch_tanks lib respond location_name bbox max_retries) = Inr [])"
proof -
  have a: "(\<forall>i < nat max_retries.
       run_attempt lib location_name (respond i (server_of i)) = Caught) \<longrightarrow>
      snd (fetch_tanks lib respond location_name bbox max_retries) = Inr []"
  proof
    assume "\<forall>i < nat max_retries.
       run_attempt lib location_name (respond i (server_of i)) = Caught"
    then have c: "\<forall>i. 0 \<le> i \<and> i < nat max_retries \<longrightarrow>
          run_attempt lib location_name (respond i (server_of i)) = Caught"
      by simp
    have "fetch_loop lib respond location_name bbox max_retries [0..<nat max_retries] []
          = ([] @ concat (map (attempt_events bbox) [0..<nat max_retries]), Inr [])"
      by (rule fetch_loop_all_caught [where n = "nat max_retries" and a = 0]) (simp_all add: c)
    then show "snd (fetch_tanks lib respond location_name bbox max_retries) = Inr []"
      by (simp add: fetch_tanks_def)
  qed
  have b: "k < nat max_retries
       \<and> (\<forall>i < k. run_attempt lib location_name (respond i (server_of i)) = Caught)
       \<and> respond k (server_of k) = Body data
       \<and> process_body lib location_name data = Inr [] \<longrightarrow>
      snd (fetch_tanks lib respond location_name bbox max_retries) = Inr []"
  proof
    assume h: "k < nat max_retries
       \<and> (\<forall>i < k. run_attempt lib location_name (respond i (server_of i)) = Caught)
       \<and> respond k (server_of k) = Body data
       \<and> process_body lib location_name data = Inr []"
    then have r: "run_attempt lib location_name (respond k (server_of k)) = Returned []"
      by (simp add: run_attempt_def)
    from h have c: "\<forall>i. 0 \<le> i \<and> i < k \<longrightarrow>
          run_attempt lib location_name (respond i (server_of i)) = Caught"
      by simp
    from h have lt: "k < nat max_retries" by simp
    have "fetch_loop lib respond location_name bbox max_retries [0..<nat max_retries] []
          = ([] @ concat (map (attempt_events bbox) [0..<Suc k]) @ [Sleep 2], Inr [])"
      by (rule fetch_loop_returned [where n = k and a = 0 and k = k]) (simp_all add: lt c r)
    then show "snd (fetch_tanks lib respond location_name bbox max_retries) = Inr []"
      by (simp add: fetch_tanks_def)
  qed
  from a b show ?thesis by blast
qed

theorem fetch_empty_ambiguous_witness:
  "snd (fetch_tanks exact_shapely three_failures ''Cushing, OK'' ''35.95,-97.45,36.15,-96.95'' 3)
     = Inr []
   \<and> snd (fetch_tanks exact_shapely empty_region ''Cushing, OK'' ''35.95,-97.45,36.15,-96.95'' 3)
     = Inr []
   \<and> empty_region 1 (server_of 1) = Body empty_body
   \<and> process_body exact_shapely ''Cushing, OK'' empty_body = Inr []"
proof -
  have f: "\<forall>i < nat 3.
      run_attempt exact_shapely ''Cushing, OK'' (three_failures i (server_of i)) = Caught"
    by (simp add: three_failures_def run_attempt_def)
  have e: "(1::nat) < nat 3"
    "\<forall>i < (1::nat). run_attempt exact_shapely ''Cushing, OK'' (empty_region i (server_of i)) = Caught"
    "empty_region 1 (server_of 1) = Body empty_body"
    "process_body exact_shapely ''Cushing, OK'' empty_body = Inr []"
    by (simp_all add: empty_region_def run_attempt_def process_body_def empty_body_def)
  from fetch_empty_ambiguous [where max_retries = 3 and lib = exact_shapely
      and location_name = "''Cushing, OK''" and respond = three_failures
      and bbox = "''35.95,-97.45,36.15,-96.95''"] f
  have "snd (fetch_tanks exact_shapely three_failures ''Cushing, OK''
          ''35.95,-97.45,36.15,-96.95'' 3) = Inr []"
    by blast
  moreover
  from fetch_empty_ambiguous [where max_retries = 3 and lib = exact_shapely
      and location_name = "''Cushing, OK''" and respond = empty_region
      and bbox = "''35.95,-97.45,36.15,-96.95''" and k = 1 and data = empty_body] e
  have "snd (fetch_tanks exact_shapely empty_region ''Cushing, OK''
          ''35.95,-97.45,36.15,-96.95'' 3) = Inr []"
    by blast
  ultimately show ?thesis using e(3,4) by blast
qed

end
